theory Spec2Isabelle
  imports Complex_Main "HOL-Library.List_Lexorder" "HOL-Library.Char_ord" "HOL-Library.AList"
begin

section \<open>JavaScript values used by the messaging client\<close>

text \<open>
  Log indices and message counters are JavaScript numbers that may also be
  \<^verbatim>\<open>undefined\<close> (a property that was never assigned) or \<^verbatim>\<open>NaN\<close> (the result of
  \<^verbatim>\<open>undefined + 1\<close>). The server assigns integer indices, so a number carries an \<open>int\<close>
  (indices stay in the range where the arithmetic of doubles is exact).
\<close>

datatype jsnum = Undefined | NaN | Num int

text \<open>\<^verbatim>\<open>x + 1\<close> on such a value.\<close>

fun js_plus1 :: "jsnum \<Rightarrow> jsnum" where
  "js_plus1 (Num n) = Num (n + 1)"
| "js_plus1 Undefined = NaN"
| "js_plus1 NaN = NaN"

text \<open>\<^verbatim>\<open>a != b\<close> (loose inequality): \<^verbatim>\<open>NaN\<close> differs from everything, itself included.\<close>

fun js_neq :: "jsnum \<Rightarrow> jsnum \<Rightarrow> bool" where
  "js_neq (Num a) (Num b) = (a \<noteq> b)"
| "js_neq Undefined Undefined = False"
| "js_neq _ _ = True"

text \<open>Decimal rendering of a number, as string concatenation \<^verbatim>\<open>'' + n\<close> produces it.\<close>

definition digit_char :: "nat \<Rightarrow> char" where
  "digit_char d = char_of (48 + d)"

function string_of_nat :: "nat \<Rightarrow> string" where
  "string_of_nat n =
     (if n < 10 then [digit_char n] else string_of_nat (n div 10) @ [digit_char (n mod 10)])"
  by pat_completeness auto
termination
  by (relation "measure (\<lambda>n. n)") auto

fun string_of_jsnum :: "jsnum \<Rightarrow> string" where
  "string_of_jsnum Undefined = ''undefined''"
| "string_of_jsnum NaN = ''NaN''"
| "string_of_jsnum (Num n) =
     (if n < 0 then CHR ''-'' # string_of_nat (nat (- n)) else string_of_nat (nat n))"

text \<open>
  The values of message objects: what JSON can write, and \<open>JNaN\<close> for the number
  \<^verbatim>\<open>NaN\<close>, which a caller's object may hold and JSON cannot write. An object is its list
  of properties in insertion order; a property is read with \<open>map_of\<close> and assigned with
  \<open>AList.update\<close> (replace in place, or append). A number carries a \<open>real\<close>: the client
  never computes with one, it only tests its type and its truthiness.
\<close>

datatype json =
    JNull
  | JBool bool
  | JNum real
  | JNaN
  | JStr string
  | JArr "json list"
  | JObj "(string \<times> json) list"

text \<open>JavaScript truthiness of a parsed value.\<close>

fun truthy :: "json \<Rightarrow> bool" where
  "truthy JNull = False"
| "truthy (JBool b) = b"
| "truthy (JNum x) = (x \<noteq> 0)"
| "truthy JNaN = False"
| "truthy (JStr s) = (s \<noteq> [])"
| "truthy (JArr xs) = True"
| "truthy (JObj kvs) = True"

text \<open>
  A string is the list of its code units (type \<open>string\<close>, a \<open>char\<close> standing for one
  code unit); the client only measures, slices, joins and compares strings. The
  primitives it uses: \<^verbatim>\<open>s.slice(0, -k)\<close>,
  \<^verbatim>\<open>s.substr(-k)\<close>, \<^verbatim>\<open>s.substr(0, k)\<close>, \<^verbatim>\<open>s.includes(c)\<close> and \<^verbatim>\<open>s.split(c)\<close> for a
  one-character separator.
\<close>

definition slice_0_minus :: "string \<Rightarrow> nat \<Rightarrow> string" where
  "slice_0_minus s k = take (length s - k) s"

definition substr_minus :: "string \<Rightarrow> nat \<Rightarrow> string" where
  "substr_minus s k = drop (length s - k) s"

definition substr_0 :: "string \<Rightarrow> nat \<Rightarrow> string" where
  "substr_0 s k = take k s"

definition includes_char :: "string \<Rightarrow> char \<Rightarrow> bool" where
  "includes_char s c = (c \<in> set s)"

fun split_char :: "char \<Rightarrow> string \<Rightarrow> string list" where
  "split_char c [] = [[]]"
| "split_char c (x # xs) =
     (if x = c then [] # split_char c xs
      else (case split_char c xs of
              [] \<Rightarrow> [[x]]
            | w # ws \<Rightarrow> (x # w) # ws))"

section \<open>The message schema\<close>

text \<open>
  \<^verbatim>\<open>MESSAGE_FORMAT\<close> compiled by the schema validator: an object with a required numeric
  \<^verbatim>\<open>created\<close>; \<^verbatim>\<open>content\<close> a string, \<^verbatim>\<open>media\<close> an array and \<^verbatim>\<open>decryption\<close> an object
  with required \<^verbatim>\<open>keys\<close> (array of strings) and \<^verbatim>\<open>roomId\<close> (string), each checked only
  when present. Other properties are accepted.
\<close>

definition is_string :: "json \<Rightarrow> bool" where
  "is_string j = (case j of JStr _ \<Rightarrow> True | _ \<Rightarrow> False)"

definition is_number :: "json \<Rightarrow> bool" where
  "is_number j = (case j of JNum _ \<Rightarrow> True | JNaN \<Rightarrow> True | _ \<Rightarrow> False)"

definition is_array :: "json \<Rightarrow> bool" where
  "is_array j = (case j of JArr _ \<Rightarrow> True | _ \<Rightarrow> False)"

definition is_string_array :: "json \<Rightarrow> bool" where
  "is_string_array j = (case j of JArr xs \<Rightarrow> list_all is_string xs | _ \<Rightarrow> False)"

text \<open>A property schema applies only when the property is present.\<close>

definition when_present :: "(string \<times> json) list \<Rightarrow> string \<Rightarrow> (json \<Rightarrow> bool) \<Rightarrow> bool" where
  "when_present kvs k ok = (case map_of kvs k of None \<Rightarrow> True | Some v \<Rightarrow> ok v)"

definition has_property :: "(string \<times> json) list \<Rightarrow> string \<Rightarrow> bool" where
  "has_property kvs k = (case map_of kvs k of None \<Rightarrow> False | Some v \<Rightarrow> True)"

definition validateDecryption :: "json \<Rightarrow> bool" where
  "validateDecryption j =
     (case j of
        JObj kvs \<Rightarrow>
          has_property kvs ''keys'' \<and> has_property kvs ''roomId'' \<and>
          when_present kvs ''keys'' is_string_array \<and>
          when_present kvs ''roomId'' is_string
      | _ \<Rightarrow> False)"

definition validateMessage :: "json \<Rightarrow> bool" where
  "validateMessage j =
     (case j of
        JObj kvs \<Rightarrow>
          has_property kvs ''created'' \<and>
          when_present kvs ''content'' is_string \<and>
          when_present kvs ''media'' is_array \<and>
          when_present kvs ''created'' is_number \<and>
          when_present kvs ''decryption'' validateDecryption
      | _ \<Rightarrow> False)"

section \<open>Envelopes, log entries and rooms\<close>

text \<open>
  One wrapped key of a \<^verbatim>\<open>keys\<close> envelope, \<^verbatim>\<open>{ekey, maddress, address}\<close>; the wallet
  address field is \<open>kaddress\<close> here.
\<close>

record key_entry =
  ekey :: string
  maddress :: string
  kaddress :: string

text \<open>A \<^verbatim>\<open>msg\<close> envelope, \<^verbatim>\<open>{type: 'msg', emsg, i, address}\<close>.\<close>

record msg_envelope =
  emsg :: string
  i :: string
  address :: string

text \<open>The out-of-band envelope is the \<^verbatim>\<open>msg\<close> envelope with a \<^verbatim>\<open>to\<close> property added.\<close>

record oob_envelope = msg_envelope +
  to :: string

text \<open>
  The content of a log entry, by its \<^verbatim>\<open>type\<close>: \<open>KeysContent address keys\<close>,
  \<open>MsgContent envelope\<close>, or any other type tag.
\<close>

datatype content =
    KeysContent string "key_entry list"
  | MsgContent msg_envelope
  | OtherContent string

text \<open>
  A log entry or live-stream frame. \<open>e_content\<close> is \<open>None\<close> and \<open>e_conversationId\<close> is empty
  when the frame lacks the property (both are falsy in the guard of \<^verbatim>\<open>onMessageUpdate\<close>).
\<close>

record entry =
  e_content :: "content option"
  e_conversationId :: string
  e_conversationIndex :: jsnum

text \<open>What \<^verbatim>\<open>toMessage\<close> builds: the payload is the decrypted object or the ciphertext.\<close>

datatype payload = Plain json | Cipher string

record message =
  msg :: payload
  room_id :: string
  index :: jsnum
  m_address :: string
  hash :: string

text \<open>An emission on the event bus: the event name and its argument.\<close>

datatype event = Emit string message

text \<open>
  A room object of \<^verbatim>\<open>this.convs\<close>. \<open>conversationIndex\<close> is the property that
  \<^verbatim>\<open>onMessageUpdate\<close> reads; \<open>lastConversationIndex\<close> and \<open>messageCount\<close> are the ones the
  ingestion writes. A property absent from the object literal is \<open>Undefined\<close>.
\<close>

record convObj =
  keys :: "string list"
  messages :: "message list"
  messageCount :: jsnum
  lastConversationIndex :: jsnum
  conversationIndex :: jsnum

text \<open>The derived messaging account and a registry entry of the key server.\<close>

record account =
  acct_address :: string
  publicKey :: string
  privateKey :: string

record regentry =
  reg_address :: string
  pub_key :: string

section \<open>Libraries, server and randomness\<close>

text \<open>
  Everything the client calls but does not implement is a field of \<open>deps\<close>:
  \<^item> \<open>aes_decrypt_utf8 msg key ivStr\<close>: the AES decryption of \<open>msg\<close> rendered as UTF-8;
    \<open>None\<close> when the rendering throws (malformed UTF-8);
  \<^item> \<open>aes_encrypt plain key ivStr\<close>: the AES ciphertext as a string; the IV is carried in
    its base64 form throughout;
  \<^item> \<open>sha1_base64\<close>: base64 of the SHA-1 digest of a string; \<open>None\<close> when the library
    throws \<^verbatim>\<open>URIError\<close>, which it does on a string that is not well-formed (a surrogate
    code unit without its partner), since it encodes the string as UTF-8 first;
  \<^item> \<open>json_parse\<close> (\<open>None\<close> when it throws) and \<open>json_stringify\<close>;
  \<^item> \<open>ecies_decrypt privateKeyHex buffer\<close> and \<open>ecies_encrypt publicKeyHex plain\<close>
    (\<open>None\<close> when they throw);
  \<^item> \<open>isAddress\<close> and \<open>toChecksumAddress\<close> (\<open>None\<close> when it throws), and
    \<open>checksum_undefined\<close>, what \<^verbatim>\<open>toChecksumAddress(undefined)\<close> does;
  \<^item> the key server: \<open>get_account\<close> answers \<^verbatim>\<open>GET /accounts/<key>\<close> with a status and a
    body (\<open>None\<close> for a falsy body), \<open>post_message\<close> answers
    \<^verbatim>\<open>POST /messages/<room>/<index>\<close> with a status, \<open>get_messages\<close> answers
    \<^verbatim>\<open>GET /messages/<room>\<close>;
  \<^item> the live stream while a method waits for the server: \<open>frames_during_fetch room\<close> are
    the frames that arrive, and are handled by \<^verbatim>\<open>onMessageUpdate\<close>, between the request
    \<^verbatim>\<open>GET /messages/<room>\<close> and its answer; \<open>frames_during_post room index content\<close>
    those between a \<^verbatim>\<open>POST /messages/<room>/<index>\<close> and its answer;
  \<^item> \<open>cryptoRandomString\<close>, \<open>random_iv\<close> and \<open>date_now\<close>: the random room key, the random
    IV (base64) and the clock reading of the call.

  The server is taken to answer every request; a request that fails in the network is
  not modelled. \<open>aes_encrypt\<close> is total: the only string the client encrypts is a text
  whose digest was computed just before, followed by base64 characters. Frames that
  arrive while the registry answers a lookup are not interleaved: the method has read
  nothing of the rooms by then, so they act as frames handled before the call.
\<close>

record deps =
  aes_decrypt_utf8 :: "string \<Rightarrow> string \<Rightarrow> string \<Rightarrow> string option"
  aes_encrypt :: "string \<Rightarrow> string \<Rightarrow> string \<Rightarrow> string"
  sha1_base64 :: "string \<Rightarrow> string option"
  json_parse :: "string \<Rightarrow> json option"
  json_stringify :: "json \<Rightarrow> string"
  ecies_decrypt :: "string \<Rightarrow> string \<Rightarrow> string option"
  ecies_encrypt :: "string \<Rightarrow> string \<Rightarrow> string option"
  isAddress :: "string \<Rightarrow> bool"
  toChecksumAddress :: "string \<Rightarrow> string option"
  checksum_undefined :: "string option"
  get_account :: "string \<Rightarrow> nat \<times> regentry option"
  post_message :: "string \<Rightarrow> jsnum \<Rightarrow> content \<Rightarrow> nat"
  get_messages :: "string \<Rightarrow> entry list"
  frames_during_fetch :: "string \<Rightarrow> entry list"
  frames_during_post :: "string \<Rightarrow> jsnum \<Rightarrow> content \<Rightarrow> entry list"
  cryptoRandomString :: string
  random_iv :: string
  date_now :: real

section \<open>The engine state\<close>

text \<open>
  The fields of the \<^verbatim>\<open>Messaging\<close> instance that the modelled methods touch, and three
  logs of its effects: \<open>events\<close> (emissions), \<open>posted\<close> (message POSTs sent to the key
  server) and \<open>fetching\<close> (bulk fetches scheduled with the rate limiter).

  Room objects are shared by reference: a method that waits for the server keeps the
  object it read before, while \<^verbatim>\<open>this.convs\<close> may come to hold another one. So the room
  objects live in a store, \<open>objects\<close>, under the references handed out by \<open>next_ref\<close>, and
  \<open>convs_ref\<close> is \<^verbatim>\<open>this.convs\<close>: the reference stored under each room id.
\<close>

record engine =
  account_key :: string
  account :: "account option"
  convs_ref :: "string \<rightharpoonup> nat"
  objects :: "nat \<Rightarrow> convObj"
  next_ref :: nat
  registryCache :: "string \<rightharpoonup> regentry"
  sending_message :: bool
  events :: "event list"
  posted :: "(string \<times> jsnum \<times> content) list"
  fetching :: "string list"

text \<open>\<^verbatim>\<open>this.convs[roomId]\<close>: the room object stored under a room id, if any.\<close>

definition convs :: "engine \<Rightarrow> string \<Rightarrow> convObj option" where
  "convs eng roomId = map_option (objects eng) (convs_ref eng roomId)"

text \<open>An exception of the program, and the outcome of a call: it returns or it throws.\<close>

datatype exn = TypeError | URIError | LibraryError | InvalidAddress string

datatype 'a outcome = Return 'a | Throw exn

definition COULD_NOT_DECRYPT :: string where
  "COULD_NOT_DECRYPT = ''Could not decrypt''"

definition INVALID_MESSAGE_OBJECT :: string where
  "INVALID_MESSAGE_OBJECT = ''Invalid message object''"

section \<open>Decryption and content processing\<close>

text \<open>
  \<^verbatim>\<open>decryptEmsg(ivStr, msg, key)\<close>; \<open>Return None\<close> is \<^verbatim>\<open>undefined\<close>. The \<^verbatim>\<open>try\<close> block
  covers the rendering as UTF-8 only; the digest of the prefix is computed outside it,
  so an exception of the digest leaves the method.
\<close>

definition decryptEmsg ::
  "deps \<Rightarrow> string \<Rightarrow> string \<Rightarrow> string \<Rightarrow> string option outcome" where
  "decryptEmsg E ivStr ct key =
     (case aes_decrypt_utf8 E ct key ivStr of
        None \<Rightarrow> Return None
      | Some outText \<Rightarrow>
          if outText \<noteq> [] \<and> length outText > 6 then
            (let verifyText = slice_0_minus outText 6;
                 shaCheck = substr_minus outText 6
             in case sha1_base64 E verifyText of
                  None \<Rightarrow> Throw URIError
                | Some digest \<Rightarrow>
                    if shaCheck = substr_0 digest 6 then Return (Some verifyText)
                    else Return None)
          else Return None)"

text \<open>
  \<^verbatim>\<open>ecDecrypt(buffer)\<close>: \<^verbatim>\<open>undefined\<close> (\<open>Return None\<close>) without an account, otherwise the
  ECIES decryption under the account's private key with its \<^verbatim>\<open>0x\<close> prefix removed.
\<close>

definition ecDecrypt :: "deps \<Rightarrow> engine \<Rightarrow> string \<Rightarrow> string option outcome" where
  "ecDecrypt E eng buffer =
     (case account eng of
        None \<Rightarrow> Return None
      | Some a \<Rightarrow>
          (case ecies_decrypt E (drop 2 (privateKey a)) buffer of
             None \<Rightarrow> Throw LibraryError
           | Some s \<Rightarrow> Return (Some s)))"

text \<open>
  One iteration of the loop of \<^verbatim>\<open>processKeys\<close>: the \<^verbatim>\<open>try\<close> block leaves \<open>key\<close> undefined
  when \<^verbatim>\<open>ecDecrypt\<close> throws; a truthy key (a non-empty string) not yet in the list is pushed.
\<close>

definition processKey :: "deps \<Rightarrow> engine \<Rightarrow> key_entry \<Rightarrow> convObj \<Rightarrow> convObj" where
  "processKey E eng v c =
     (if kaddress v = account_key eng then
        (let key = (case ecDecrypt E eng (ekey v) of Throw e \<Rightarrow> None | Return k \<Rightarrow> k)
         in case key of
              None \<Rightarrow> c
            | Some k \<Rightarrow> if k \<noteq> [] \<and> k \<notin> set (keys c) then c\<lparr>keys := keys c @ [k]\<rparr> else c)
      else c)"

text \<open>\<^verbatim>\<open>processKeys(content, convObj)\<close>, on the list \<^verbatim>\<open>content.keys\<close>.\<close>

fun processKeys :: "deps \<Rightarrow> engine \<Rightarrow> key_entry list \<Rightarrow> convObj \<Rightarrow> convObj" where
  "processKeys E eng [] c = c"
| "processKeys E eng (v # vs) c = processKeys E eng vs (processKey E eng v c)"

text \<open>
  The object \<^verbatim>\<open>decryptMessage\<close> returns: \<^verbatim>\<open>{content: obj}\<close> or \<^verbatim>\<open>{error: text}\<close>.
\<close>

record decrypted =
  d_error :: "string option"
  d_content :: "json option"

definition error_result :: "string \<Rightarrow> decrypted" where
  "error_result e = \<lparr>d_error = Some e, d_content = None\<rparr>"

definition content_result :: "json \<Rightarrow> decrypted" where
  "content_result obj = \<lparr>d_error = None, d_content = Some obj\<rparr>"

text \<open>
  The loop of \<^verbatim>\<open>decryptMessage\<close> over the room keys, in list order. The first key that
  passes the tag check decides; an exception of \<^verbatim>\<open>decryptEmsg\<close> ends the loop.
\<close>

fun decryptWithKeys :: "deps \<Rightarrow> msg_envelope \<Rightarrow> string list \<Rightarrow> decrypted outcome" where
  "decryptWithKeys E v [] = Return (error_result COULD_NOT_DECRYPT)"
| "decryptWithKeys E v (key # ks) =
     (case decryptEmsg E (i v) (emsg v) key of
        Throw e \<Rightarrow> Throw e
      | Return None \<Rightarrow> decryptWithKeys E v ks
      | Return (Some buffer) \<Rightarrow>
          (case json_parse E buffer of
             None \<Rightarrow> Return (error_result INVALID_MESSAGE_OBJECT)
           | Some obj \<Rightarrow>
               if \<not> validateMessage obj then Return (error_result INVALID_MESSAGE_OBJECT)
               else Return (content_result obj)))"

definition decryptMessage :: "deps \<Rightarrow> msg_envelope \<Rightarrow> convObj \<Rightarrow> decrypted outcome" where
  "decryptMessage E v c = decryptWithKeys E v (keys c)"

text \<open>
  \<^verbatim>\<open>processContent(content, convObj, onMessage, onEncrypted)\<close>. The callbacks act on the
  room object and on the event log, which is what the closures passed by the callers
  mutate; so does the function itself. When \<^verbatim>\<open>decryptMessage\<close> throws, nothing has been
  changed yet.
\<close>

type_synonym room_ctx = "convObj \<times> event list"

definition processContent ::
  "deps \<Rightarrow> engine \<Rightarrow> content \<Rightarrow>
   (json \<Rightarrow> string \<Rightarrow> room_ctx \<Rightarrow> room_ctx) \<Rightarrow>
   (string \<Rightarrow> string \<Rightarrow> room_ctx \<Rightarrow> room_ctx) \<Rightarrow> room_ctx \<Rightarrow> room_ctx outcome" where
  "processContent E eng ct onMessage onEncrypted ctx =
     (case ct of
        KeysContent a ks \<Rightarrow> Return (processKeys E eng ks (fst ctx), snd ctx)
      | MsgContent v \<Rightarrow>
          (case decryptMessage E v (fst ctx) of
             Throw e \<Rightarrow> Throw e
           | Return dec \<Rightarrow>
               if d_error dec = Some COULD_NOT_DECRYPT
               then Return (onEncrypted (emsg v) (address v) ctx)
               else if d_error dec = Some INVALID_MESSAGE_OBJECT then Return ctx
               else (case d_content dec of
                       None \<Rightarrow> Return ctx
                     | Some obj \<Rightarrow>
                         if truthy obj then Return (onMessage obj (address v) ctx)
                         else Return ctx))
      | OtherContent t \<Rightarrow> Return ctx)"

section \<open>Ingesting the room log\<close>

definition getMessageId :: "string \<Rightarrow> entry \<Rightarrow> string" where
  "getMessageId roomId container =
     roomId @ ''.'' @ string_of_jsnum (e_conversationIndex container)"

definition toMessage :: "payload \<Rightarrow> string \<Rightarrow> entry \<Rightarrow> string \<Rightarrow> message" where
  "toMessage m roomId container addr =
     \<lparr>msg = m, room_id = roomId, index = e_conversationIndex container,
      m_address = addr, hash = getMessageId roomId container\<rparr>"

text \<open>
  The two closures that \<^verbatim>\<open>getRoom\<close> and \<^verbatim>\<open>onMessageUpdate\<close> pass to
  \<^verbatim>\<open>processContent\<close> (the same pair in both): the first pushes the message on the room
  and emits \<^verbatim>\<open>msg\<close>, the second emits \<^verbatim>\<open>emsg\<close>.
\<close>

definition on_msg :: "string \<Rightarrow> entry \<Rightarrow> json \<Rightarrow> string \<Rightarrow> room_ctx \<Rightarrow> room_ctx" where
  "on_msg roomId en m addr ctx =
     (let message = toMessage (Plain m) roomId en addr
      in ((fst ctx)\<lparr>messages := messages (fst ctx) @ [message]\<rparr>,
          snd ctx @ [Emit ''msg'' message]))"

definition on_emsg :: "string \<Rightarrow> entry \<Rightarrow> string \<Rightarrow> string \<Rightarrow> room_ctx \<Rightarrow> room_ctx" where
  "on_emsg roomId en m addr ctx =
     (fst ctx, snd ctx @ [Emit ''emsg'' (toMessage (Cipher m) roomId en addr)])"

text \<open>
  The block both callers run for an entry with content: process the content, then
  \<^verbatim>\<open>convObj.lastConversationIndex = entry.conversationIndex\<close> and
  \<^verbatim>\<open>convObj.messageCount = entry.conversationIndex + 1\<close>. An exception of
  \<^verbatim>\<open>processContent\<close> skips the two assignments.
\<close>

definition ingest ::
  "deps \<Rightarrow> engine \<Rightarrow> string \<Rightarrow> entry \<Rightarrow> content \<Rightarrow> room_ctx \<Rightarrow> room_ctx outcome" where
  "ingest E eng roomId en ct ctx =
     (case processContent E eng ct (on_msg roomId en) (on_emsg roomId en) ctx of
        Throw e \<Rightarrow> Throw e
      | Return ctx' \<Rightarrow>
          Return ((fst ctx')\<lparr>lastConversationIndex := e_conversationIndex en,
                            messageCount := js_plus1 (e_conversationIndex en)\<rparr>,
                  snd ctx'))"

text \<open>The object literal \<^verbatim>\<open>{ keys: [], messages: [] }\<close> of \<^verbatim>\<open>getRoom\<close>.\<close>

definition fresh_room :: convObj where
  "fresh_room =
     \<lparr>keys = [], messages = [], messageCount = Undefined,
      lastConversationIndex = Undefined, conversationIndex = Undefined\<rparr>"

text \<open>
  \<^verbatim>\<open>getRoom\<close> up to its first \<^verbatim>\<open>await\<close>: a fresh object is created, under the reference
  \<open>next_ref eng\<close>, and stored in \<^verbatim>\<open>this.convs\<close>, and the fetch of the log is scheduled. A
  caller that does not await \<^verbatim>\<open>getRoom\<close> sees this state.
\<close>

definition getRoom_start :: "engine \<Rightarrow> string \<Rightarrow> engine" where
  "getRoom_start eng roomId =
     eng\<lparr>convs_ref := (convs_ref eng)(roomId \<mapsto> next_ref eng),
         objects := (objects eng)(next_ref eng := fresh_room),
         next_ref := Suc (next_ref eng),
         fetching := fetching eng @ [roomId]\<rparr>"

text \<open>
  \<^verbatim>\<open>onMessageUpdate(entry)\<close>. The calls of \<^verbatim>\<open>getRoom\<close> are not awaited, so the handler
  itself ends in \<open>getRoom_start\<close>. The handler changes the object that \<^verbatim>\<open>this.convs\<close>
  holds for the room. An exception of \<^verbatim>\<open>processContent\<close> leaves the handler with the
  engine as it was.
\<close>

definition onMessageUpdate :: "deps \<Rightarrow> engine \<Rightarrow> entry \<Rightarrow> unit outcome \<times> engine" where
  "onMessageUpdate E eng en =
     (case e_content en of
        None \<Rightarrow> (Return (), eng)
      | Some ct \<Rightarrow>
          if e_conversationId en = [] then (Return (), eng)
          else
            (case convs_ref eng (e_conversationId en) of
               None \<Rightarrow> (Return (), getRoom_start eng (e_conversationId en))
             | Some ref \<Rightarrow>
                 if js_neq (e_conversationIndex en)
                      (js_plus1 (conversationIndex (objects eng ref))) then
                   (case ingest E eng (e_conversationId en) en ct
                           (objects eng ref, events eng) of
                      Throw e \<Rightarrow> (Throw e, eng)
                    | Return ctx' \<Rightarrow>
                        (Return (),
                         eng\<lparr>objects := (objects eng)(ref := fst ctx'), events := snd ctx'\<rparr>))
                 else (Return (), getRoom_start eng (e_conversationId en))))"

text \<open>
  The frames of the live stream that arrive while a method waits: each is handled by
  \<^verbatim>\<open>onMessageUpdate\<close>; an exception of the handler is caught by nobody and ends that
  handler only.
\<close>

definition handle_frames :: "deps \<Rightarrow> engine \<Rightarrow> entry list \<Rightarrow> engine" where
  "handle_frames E eng frames = foldl (\<lambda>e en. snd (onMessageUpdate E e en)) eng frames"

text \<open>
  \<^verbatim>\<open>messages.forEach\<close> of \<^verbatim>\<open>getRoom\<close>. An entry without content makes
  \<^verbatim>\<open>processContent\<close> throw on \<^verbatim>\<open>content.type\<close>; that or another exception of
  \<^verbatim>\<open>processContent\<close> ends the loop.
\<close>

fun getRoom_forEach ::
  "deps \<Rightarrow> engine \<Rightarrow> string \<Rightarrow> entry list \<Rightarrow> room_ctx \<Rightarrow> unit outcome \<times> room_ctx" where
  "getRoom_forEach E eng roomId [] ctx = (Return (), ctx)"
| "getRoom_forEach E eng roomId (en # es) ctx =
     (case e_content en of
        None \<Rightarrow> (Throw TypeError, ctx)
      | Some ct \<Rightarrow>
          (case ingest E eng roomId en ct ctx of
             Throw e \<Rightarrow> (Throw e, ctx)
           | Return ctx' \<Rightarrow> getRoom_forEach E eng roomId es ctx'))"

text \<open>
  \<^verbatim>\<open>getRoom\<close> from the answer of the server on: the loop fills the object the method
  created at its start, reference \<open>ref\<close>, in the engine as it is by then.
\<close>

definition getRoom_resume ::
  "deps \<Rightarrow> engine \<Rightarrow> nat \<Rightarrow> string \<Rightarrow> entry list \<Rightarrow> unit outcome \<times> engine" where
  "getRoom_resume E eng ref roomId es =
     (let r = getRoom_forEach E eng roomId es (objects eng ref, events eng)
      in (fst r, eng\<lparr>objects := (objects eng)(ref := fst (snd r)), events := snd (snd r)\<rparr>))"

text \<open>
  \<^verbatim>\<open>getRoom(roomId)\<close>: the start, the frames handled while the fetch is in flight, and
  the loop over the fetched log.
\<close>

definition getRoom :: "deps \<Rightarrow> engine \<Rightarrow> string \<Rightarrow> unit outcome \<times> engine" where
  "getRoom E eng roomId =
     getRoom_resume E
       (handle_frames E (getRoom_start eng roomId) (frames_during_fetch E roomId))
       (next_ref eng) roomId (get_messages E roomId)"

section \<open>Starting a conversation and sending\<close>

text \<open>
  \<^verbatim>\<open>getRegisteredKey(key)\<close>: a truthy cached entry is returned; otherwise the server is
  asked, and a status 200 caches and returns the body. A falsy body is returned as no
  entry; caching it would change nothing, since the cache lookup treats it as absent.
\<close>

definition getRegisteredKey :: "deps \<Rightarrow> engine \<Rightarrow> string \<Rightarrow> regentry option \<times> engine" where
  "getRegisteredKey E eng key =
     (case registryCache eng key of
        Some ent \<Rightarrow> (Some ent, eng)
      | None \<Rightarrow>
          (let res = get_account E key in
             if fst res = 200 then
               (case snd res of
                  None \<Rightarrow> (None, eng)
                | Some jEntry \<Rightarrow>
                    (Some jEntry, eng\<lparr>registryCache := (registryCache eng)(key \<mapsto> jEntry)\<rparr>))
             else (None, eng)))"

text \<open>\<^verbatim>\<open>keys.join('-')\<close>.\<close>

fun join_dash :: "string list \<Rightarrow> string" where
  "join_dash [] = []"
| "join_dash [x] = x"
| "join_dash (x # y # ys) = x @ ''-'' @ join_dash (y # ys)"

definition generateRoomId :: "deps \<Rightarrow> string \<Rightarrow> string \<Rightarrow> string outcome" where
  "generateRoomId E converser1 converser2 =
     (case toChecksumAddress E converser1 of
        None \<Rightarrow> Throw (InvalidAddress converser1)
      | Some a \<Rightarrow>
          (case toChecksumAddress E converser2 of
             None \<Rightarrow> Throw (InvalidAddress converser2)
           | Some b \<Rightarrow> Return (join_dash (sort [a, b]))))"

definition isRoomId :: "string \<Rightarrow> bool" where
  "isRoomId str = includes_char str CHR ''-''"

definition getRecipients :: "string \<Rightarrow> string list" where
  "getRecipients key = split_char CHR ''-'' key"

text \<open>
  \<^verbatim>\<open>ecEncrypt(text, pubKey)\<close>: a falsy \<open>pubKey\<close> (\<open>None\<close> for a missing argument, or the
  empty string) is replaced by the account's public key, and reading that throws
  without an account.
\<close>

definition ecEncrypt :: "deps \<Rightarrow> engine \<Rightarrow> string \<Rightarrow> string option \<Rightarrow> string outcome" where
  "ecEncrypt E eng plain pubKey =
     (case (if pubKey = None \<or> pubKey = Some [] then map_option publicKey (account eng)
            else pubKey) of
        None \<Rightarrow> Throw TypeError
      | Some pk \<Rightarrow>
          (case ecies_encrypt E (drop 2 pk) plain of
             None \<Rightarrow> Throw LibraryError
           | Some wrapped \<Rightarrow> Return wrapped))"

text \<open>
  \<^verbatim>\<open>addRoomMsg(conversationId, conversationIndex, content)\<close>: signing throws without an
  account; otherwise the POST is sent (logged in \<open>posted\<close>; its signature is computed by
  the account from the same three values), the frames that arrive before the answer are
  handled, and the result says whether the status was 200.
\<close>

definition addRoomMsg ::
  "deps \<Rightarrow> engine \<Rightarrow> string \<Rightarrow> jsnum \<Rightarrow> content \<Rightarrow> bool outcome \<times> engine" where
  "addRoomMsg E eng conversationId convIndex ct =
     (case account eng of
        None \<Rightarrow> (Throw TypeError, eng)
      | Some a \<Rightarrow>
          (Return (post_message E conversationId convIndex ct = 200),
           handle_frames E (eng\<lparr>posted := posted eng @ [(conversationId, convIndex, ct)]\<rparr>)
             (frames_during_post E conversationId convIndex ct)))"

text \<open>The object literal \<^verbatim>\<open>{ keys: [], messageCount: 0 }\<close> of \<^verbatim>\<open>startConv\<close>.\<close>

definition new_conv :: convObj where
  "new_conv =
     \<lparr>keys = [], messages = [], messageCount = Num 0,
      lastConversationIndex = Undefined, conversationIndex = Undefined\<rparr>"

text \<open>The \<^verbatim>\<open>keys\<close> envelope \<^verbatim>\<open>startConv\<close> posts.\<close>

definition keysContent ::
  "engine \<Rightarrow> account \<Rightarrow> regentry \<Rightarrow> string \<Rightarrow> string \<Rightarrow> string \<Rightarrow> content" where
  "keysContent eng a ent remoteEthAddress ekey_self ekey_remote =
     KeysContent (account_key eng)
       [\<lparr>ekey = ekey_self, maddress = acct_address a, kaddress = account_key eng\<rparr>,
        \<lparr>ekey = ekey_remote, maddress = reg_address ent, kaddress = remoteEthAddress\<rparr>]"

text \<open>
  \<^verbatim>\<open>this.convs[roomId] || { keys: [], messageCount: 0 }\<close>: the reference of the stored
  room, or of a new object that is stored nowhere.
\<close>

definition room_or_new :: "engine \<Rightarrow> string \<Rightarrow> nat \<times> engine" where
  "room_or_new eng roomId =
     (case convs_ref eng roomId of
        Some ref \<Rightarrow> (ref, eng)
      | None \<Rightarrow>
          (next_ref eng,
           eng\<lparr>objects := (objects eng)(next_ref eng := new_conv),
               next_ref := Suc (next_ref eng)\<rparr>))"

text \<open>
  The branch of \<^verbatim>\<open>startConv\<close> for a room object without keys: a random key is wrapped
  for both parties and posted in a \<^verbatim>\<open>keys\<close> envelope at index \<^verbatim>\<open>messageCount\<close>. The method
  keeps the reference \<open>ref\<close> of the room object over the awaited POST; when the POST
  succeeded, the key is pushed and the count incremented on that object as it is after
  the frames handled meanwhile. The result is the object as the method leaves it.
\<close>

definition startConv_announce ::
  "deps \<Rightarrow> engine \<Rightarrow> regentry \<Rightarrow> string \<Rightarrow> string \<Rightarrow> nat \<Rightarrow> convObj option outcome \<times> engine" where
  "startConv_announce E eng ent roomId remoteEthAddress ref =
     (let convIndex = messageCount (objects eng ref);
          encryptKey = cryptoRandomString E in
      case ecEncrypt E eng encryptKey None of
        Throw e \<Rightarrow> (Throw e, eng)
      | Return ekey_self \<Rightarrow>
          (case account eng of
             None \<Rightarrow> (Throw TypeError, eng)
           | Some a \<Rightarrow>
               (case ecEncrypt E eng encryptKey (Some (pub_key ent)) of
                  Throw e \<Rightarrow> (Throw e, eng)
                | Return ekey_remote \<Rightarrow>
                    (let sent = addRoomMsg E eng roomId convIndex
                          (keysContent eng a ent remoteEthAddress ekey_self ekey_remote);
                         eng3 = snd sent in
                     case fst sent of
                       Throw e \<Rightarrow> (Throw e, eng3)
                     | Return result \<Rightarrow>
                         if result then
                           (let c' = (objects eng3 ref)
                                  \<lparr>keys := keys (objects eng3 ref) @ [encryptKey],
                                   messageCount := js_plus1 (messageCount (objects eng3 ref))\<rparr>
                            in (Return (Some c'), eng3\<lparr>objects := (objects eng3)(ref := c')\<rparr>))
                         else (Return (Some (objects eng3 ref)), eng3)))))"

text \<open>
  \<^verbatim>\<open>startConv(remoteEthAddress)\<close>. \<open>Return None\<close> is the bare \<^verbatim>\<open>return\<close>.
\<close>

definition startConv :: "deps \<Rightarrow> engine \<Rightarrow> string \<Rightarrow> convObj option outcome \<times> engine" where
  "startConv E eng remoteEthAddress =
     (let lk = getRegisteredKey E eng remoteEthAddress; eng1 = snd lk in
      case fst lk of
        None \<Rightarrow> (Return None, eng1)
      | Some ent \<Rightarrow>
          (case generateRoomId E (account_key eng1) remoteEthAddress of
             Throw e \<Rightarrow> (Throw e, eng1)
           | Return roomId \<Rightarrow>
               (let h = room_or_new eng1 roomId; ref = fst h; eng2 = snd h in
                if keys (objects eng2 ref) = []
                then startConv_announce E eng2 ent roomId remoteEthAddress ref
                else (Return (Some (objects eng2 ref)), eng2))))"

text \<open>
  The caller's message: a string (wrapped as \<^verbatim>\<open>{content: text}\<close>) or an object, given by
  its properties.
\<close>

datatype message_input = MsgString string | MsgObject "(string \<times> json) list"

definition message_props :: "message_input \<Rightarrow> (string \<times> json) list" where
  "message_props messageObj =
     (case messageObj of
        MsgString s \<Rightarrow> [(''content'', JStr s)]
      | MsgObject kvs \<Rightarrow> kvs)"

text \<open>\<^verbatim>\<open>Object.assign({}, messageObj)\<close> followed by \<^verbatim>\<open>message.created = Date.now()\<close>.\<close>

definition stamped :: "deps \<Rightarrow> message_input \<Rightarrow> json" where
  "stamped E messageObj =
     JObj (AList.update ''created'' (JNum (date_now E)) (message_props messageObj))"

text \<open>
  \<^verbatim>\<open>createEncrypted(address, convObj, messageObj)\<close>. \<open>Return None\<close> is the bare \<^verbatim>\<open>return\<close>
  for an invalid message. The digest throws on a text that is not well-formed; with an
  empty key list the key is \<^verbatim>\<open>undefined\<close> and the cipher throws.
\<close>

definition createEncrypted ::
  "deps \<Rightarrow> engine \<Rightarrow> string \<Rightarrow> convObj \<Rightarrow> message_input \<Rightarrow> msg_envelope option outcome" where
  "createEncrypted E eng addr c messageObj =
     (if \<not> isAddress E addr then Throw (InvalidAddress addr)
      else
        (case toChecksumAddress E addr of
           None \<Rightarrow> Throw (InvalidAddress addr)
         | Some remoteEthAddress \<Rightarrow>
             (let message = stamped E messageObj in
              if \<not> validateMessage message then Return None
              else
                (let iv = random_iv E; messageStr = json_stringify E message in
                 case sha1_base64 E messageStr of
                   None \<Rightarrow> Throw URIError
                 | Some digest \<Rightarrow>
                     (case keys c of
                        [] \<Rightarrow> Throw TypeError
                      | key # rest \<Rightarrow>
                          (let shaSub = substr_0 digest 6;
                               encmsg = aes_encrypt E (messageStr @ shaSub) key iv
                           in Return (Some \<lparr>emsg = encmsg, i = iv,
                                            address = account_key eng\<rparr>)))))))"

text \<open>
  The first part of \<^verbatim>\<open>sendConvMessage\<close>: from a room id or an address to the room id
  and the checksummed remote address. In a room id whose parts all equal the own
  address, \<^verbatim>\<open>find\<close> gives \<^verbatim>\<open>undefined\<close>.
\<close>

definition resolveRoom :: "deps \<Rightarrow> engine \<Rightarrow> string \<Rightarrow> (string \<times> string) outcome" where
  "resolveRoom E eng roomIdOrAddress =
     (if isRoomId roomIdOrAddress then
        (case (case find (\<lambda>a. a \<noteq> account_key eng) (getRecipients roomIdOrAddress) of
                 None \<Rightarrow> checksum_undefined E
               | Some r \<Rightarrow> toChecksumAddress E r) of
           None \<Rightarrow> Throw (InvalidAddress roomIdOrAddress)
         | Some remoteEthAddress \<Rightarrow> Return (roomIdOrAddress, remoteEthAddress))
      else if \<not> isAddress E roomIdOrAddress then Throw (InvalidAddress roomIdOrAddress)
      else
        (case generateRoomId E (account_key eng) roomIdOrAddress of
           Throw e \<Rightarrow> Throw e
         | Return roomId \<Rightarrow>
             (case toChecksumAddress E roomIdOrAddress of
                None \<Rightarrow> Throw (InvalidAddress roomIdOrAddress)
              | Some remoteEthAddress \<Rightarrow> Return (roomId, remoteEthAddress))))"

text \<open>
  \<^verbatim>\<open>sendConvMessage(roomIdOrAddress, messageObj)\<close>; \<open>Return None\<close> is a bare \<^verbatim>\<open>return\<close>,
  \<open>Return (Some roomId)\<close> the final one.
\<close>

definition sendConvMessage ::
  "deps \<Rightarrow> engine \<Rightarrow> string \<Rightarrow> message_input \<Rightarrow> string option outcome \<times> engine" where
  "sendConvMessage E eng roomIdOrAddress messageObj =
     (if sending_message eng then (Return None, eng)
      else
        (case resolveRoom E eng roomIdOrAddress of
           Throw e \<Rightarrow> (Throw e, eng)
         | Return rr \<Rightarrow>
             (let started = startConv E eng (snd rr); eng1 = snd started in
              case fst started of
                Throw e \<Rightarrow> (Throw e, eng1)
              | Return None \<Rightarrow> (Return None, eng1)
              | Return (Some c) \<Rightarrow>
                  (case createEncrypted E eng1 (snd rr) c messageObj of
                     Throw e \<Rightarrow> (Throw e, eng1)
                   | Return None \<Rightarrow> (Return None, eng1)
                   | Return (Some encryptedContent) \<Rightarrow>
                       (let sent = addRoomMsg E (eng1\<lparr>sending_message := True\<rparr>) (fst rr)
                                     (messageCount c) (MsgContent encryptedContent)
                        in case fst sent of
                             Throw e \<Rightarrow> (Throw e, snd sent)
                           | Return ok \<Rightarrow>
                               (Return (Some (fst rr)),
                                (snd sent)\<lparr>sending_message := False\<rparr>))))))"

text \<open>
  \<^verbatim>\<open>createOutOfBandMessage(address, messageObj)\<close>. The variable the source calls
  \<^verbatim>\<open>myAddress\<close> is \<^verbatim>\<open>toChecksumAddress(remoteEthAddress)\<close>.
\<close>

definition createOutOfBandMessage ::
  "deps \<Rightarrow> engine \<Rightarrow> string \<Rightarrow> message_input \<Rightarrow> oob_envelope option outcome \<times> engine" where
  "createOutOfBandMessage E eng addr messageObj =
     (if \<not> isAddress E addr then (Throw (InvalidAddress addr), eng)
      else
        (case toChecksumAddress E addr of
           None \<Rightarrow> (Throw (InvalidAddress addr), eng)
         | Some remoteEthAddress \<Rightarrow>
             (let started = startConv E eng remoteEthAddress; eng1 = snd started in
              case fst started of
                Throw e \<Rightarrow> (Throw e, eng1)
              | Return None \<Rightarrow> (Return None, eng1)
              | Return (Some c) \<Rightarrow>
                  (case createEncrypted E eng1 remoteEthAddress c messageObj of
                     Throw e \<Rightarrow> (Throw e, eng1)
                   | Return None \<Rightarrow> (Return None, eng1)
                   | Return (Some encryptedContent) \<Rightarrow>
                       (case toChecksumAddress E remoteEthAddress of
                          None \<Rightarrow> (Throw (InvalidAddress remoteEthAddress), eng1)
                        | Some myAddress \<Rightarrow>
                            (Return (Some \<lparr>emsg = emsg encryptedContent,
                                           i = i encryptedContent,
                                           address = address encryptedContent,
                                           to = myAddress\<rparr>),
                             eng1))))))"

section \<open>Notions used in the statements\<close>

text \<open>
  The keys an announcement hands to this account: those of the entries addressed to the
  engine's wallet address whose wrapped key unwraps to a non-empty string.
\<close>

definition recovered :: "deps \<Rightarrow> engine \<Rightarrow> key_entry list \<Rightarrow> string set" where
  "recovered E eng vs =
     {k. \<exists>v\<in>set vs. kaddress v = account_key eng \<and>
           ecDecrypt E eng (ekey v) = Return (Some k) \<and> k \<noteq> []}"


text \<open>A logged POST that carries a \<^verbatim>\<open>keys\<close> envelope.\<close>

definition keys_post :: "string \<times> jsnum \<times> content \<Rightarrow> bool" where
  "keys_post p = (case snd (snd p) of KeysContent a ks \<Rightarrow> True | _ \<Rightarrow> False)"

text \<open>
  No room object, stored or not, has its \<^verbatim>\<open>conversationIndex\<close> property assigned.
\<close>

definition unassigned_index :: "engine \<Rightarrow> bool" where
  "unassigned_index eng = (\<forall>ref. conversationIndex (objects eng ref) = Undefined)"

text \<open>
  Two room ids of \<^verbatim>\<open>this.convs\<close> never hold the same object, and every stored reference
  has been allocated.
\<close>

definition heap_ok :: "engine \<Rightarrow> bool" where
  "heap_ok eng =
     (inj_on (convs_ref eng) (dom (convs_ref eng)) \<and>
      (\<forall>r ref. convs_ref eng r = Some ref \<longrightarrow> ref < next_ref eng))"



section \<open>A small instance\<close>

text \<open>
  A concrete set of libraries and a concrete engine, on which the theorems below are
  exercised. The cipher prefixes the key, the digest repeats the last character, the JSON
  codec knows two messages and one array, and the registry knows one peer. Wallet
  \<^verbatim>\<open>0xA11\<close> is the local account, wallet \<^verbatim>\<open>0xB0B\<close> the peer.

  Two characters stand for the two halves of a surrogate pair (an emoji is such a pair):
  \<open>demo_hi\<close> for the high and \<open>demo_lo\<close> for the low surrogate. A string is well-formed
  when every \<open>demo_hi\<close> is followed by a \<open>demo_lo\<close> and no \<open>demo_lo\<close> stands elsewhere; the
  digest of the instance throws on the other strings, as the library does.
\<close>

definition demo_hi :: char where
  "demo_hi = CHR 0xD8"

definition demo_lo :: char where
  "demo_lo = CHR 0xDC"

fun demo_well_formed :: "string \<Rightarrow> bool" where
  "demo_well_formed [] = True"
| "demo_well_formed [c] = (c \<noteq> demo_hi \<and> c \<noteq> demo_lo)"
| "demo_well_formed (c # d # cs) =
     (if c = demo_hi then d = demo_lo \<and> demo_well_formed cs
      else c \<noteq> demo_lo \<and> demo_well_formed (d # cs))"

definition demo_message :: json where
  "demo_message = JObj [(''content'', JStr ''hi''), (''created'', JNum 1700)]"

text \<open>
  A message with a property that holds \<^verbatim>\<open>NaN\<close>, as \<^verbatim>\<open>createEncrypted\<close> stamps it, and the
  object JSON reads back from its text, where \<^verbatim>\<open>NaN\<close> was written as \<^verbatim>\<open>null\<close>.
\<close>

definition demo_nan_message :: json where
  "demo_nan_message = JObj [(''score'', JNaN), (''created'', JNum 1700)]"

definition demo_null_message :: json where
  "demo_null_message = JObj [(''score'', JNull), (''created'', JNum 1700)]"

definition demo_account :: account where
  "demo_account = \<lparr>acct_address = ''0xMA'', publicKey = ''0xk1'', privateKey = ''0xk1''\<rparr>"

definition demo_room :: string where
  "demo_room = ''0xA11-0xB0B''"

definition demo_keys_entry :: entry where
  "demo_keys_entry =
     \<lparr>e_content = Some (KeysContent ''0xB0B''
        [\<lparr>ekey = ''k2:roomkey'', maddress = ''0xMB'', kaddress = ''0xB0B''\<rparr>,
         \<lparr>ekey = ''k1:roomkey'', maddress = ''0xMA'', kaddress = ''0xA11''\<rparr>]),
      e_conversationId = demo_room, e_conversationIndex = Num 0\<rparr>"

definition demo_deps :: deps where
  "demo_deps =
     \<lparr>aes_decrypt_utf8 = (\<lambda>ct key iv.
         if take (length key + 1) ct = key @ ''|'' then Some (drop (length key + 1) ct) else None),
      aes_encrypt = (\<lambda>plain key iv. key @ ''|'' @ plain),
      sha1_base64 = (\<lambda>s. if demo_well_formed s
                          then Some (let c = last (CHR ''='' # s) in [c, c, c, c, c, c, c, c])
                          else None),
      json_parse = (\<lambda>s. if s = ''{content:hi,created:1700}'' then Some demo_message
                          else if s = ''{score:null,created:1700}'' then Some demo_null_message
                          else if s = ''[1]'' then Some (JArr [JNum 1]) else None),
      json_stringify = (\<lambda>j. if j = demo_message then ''{content:hi,created:1700}''
                              else if j = demo_nan_message \<or> j = demo_null_message
                              then ''{score:null,created:1700}'' else ''null''),
      ecies_decrypt = (\<lambda>priv buf.
         if take (length priv + 1) buf = priv @ '':'' then Some (drop (length priv + 1) buf)
         else None),
      ecies_encrypt = (\<lambda>pub plain. Some (pub @ '':'' @ plain)),
      isAddress = (\<lambda>s. s \<in> {''0xa11'', ''0xA11'', ''0xb0b'', ''0xB0B''}),
      toChecksumAddress = (\<lambda>s. if s = ''0xa11'' \<or> s = ''0xA11'' then Some ''0xA11''
                                 else if s = ''0xb0b'' \<or> s = ''0xB0B'' then Some ''0xB0B''
                                 else None),
      checksum_undefined = Some [],
      get_account = (\<lambda>key. if key = ''0xB0B''
                             then (200, Some \<lparr>reg_address = ''0xMB'', pub_key = ''0xk2''\<rparr>)
                             else (404, None)),
      post_message = (\<lambda>room n ct. 200),
      get_messages = (\<lambda>room. if room = demo_room then [demo_keys_entry] else []),
      frames_during_fetch = (\<lambda>room. []),
      frames_during_post = (\<lambda>room n ct. []),
      cryptoRandomString = ''roomkey'',
      random_iv = ''aXY='',
      date_now = 1700\<rparr>"

definition demo_engine :: engine where
  "demo_engine =
     \<lparr>account_key = ''0xA11'', account = Some demo_account, convs_ref = Map.empty,
      objects = (\<lambda>ref. fresh_room), next_ref = 0,
      registryCache = Map.empty, sending_message = False, events = [], posted = [],
      fetching = []\<rparr>"

text \<open>The engine after the bulk load of the room.\<close>

definition demo_loaded :: engine where
  "demo_loaded = snd (getRoom demo_deps demo_engine demo_room)"

text \<open>
  A \<^verbatim>\<open>msg\<close> envelope under the room key, and a live frame carrying it at a chosen index.
\<close>

definition demo_envelope :: msg_envelope where
  "demo_envelope = \<lparr>emsg = ''roomkey|{content:hi,created:1700}}}}}}}'', i = ''aXY='',
                     address = ''0xB0B''\<rparr>"

definition demo_live :: "int \<Rightarrow> entry" where
  "demo_live n = \<lparr>e_content = Some (MsgContent demo_envelope), e_conversationId = demo_room,
                  e_conversationIndex = Num n\<rparr>"

text \<open>
  A ciphertext that decrypts under the room key to the eight code units of
  \<^verbatim>\<open>'a' + emoji + 'bcdef'\<close>: cutting the last six leaves \<^verbatim>\<open>'a'\<close> and the high surrogate.
\<close>

definition demo_emoji_ciphertext :: string where
  "demo_emoji_ciphertext = ''roomkey|a'' @ [demo_hi, demo_lo] @ ''bcdef''"

text \<open>
  The same libraries with a cipher under which the key \<^verbatim>\<open>weak\<close> turns every ciphertext
  into a text that passes the tag check and is not JSON.
\<close>

definition demo_deps_weak :: deps where
  "demo_deps_weak =
     demo_deps\<lparr>aes_decrypt_utf8 := (\<lambda>ct key iv.
        if key = ''weak'' then Some ''garbageeeeeee'' else aes_decrypt_utf8 demo_deps ct key iv)\<rparr>"



text \<open>
  A server whose log of the room holds one \<^verbatim>\<open>keys\<close> entry addressed to the peer only,
  and whose stream echoes every posted entry before the POST is answered; and the engine
  after the bulk load of that log: the room is stored with no key and count 1.
\<close>

definition demo_others_entry :: entry where
  "demo_others_entry =
     \<lparr>e_content = Some (KeysContent ''0xB0B''
        [\<lparr>ekey = ''k2:oldkey'', maddress = ''0xMB'', kaddress = ''0xB0B''\<rparr>]),
      e_conversationId = demo_room, e_conversationIndex = Num 0\<rparr>"

definition demo_deps_echo :: deps where
  "demo_deps_echo =
     demo_deps\<lparr>get_messages := (\<lambda>room. if room = demo_room then [demo_others_entry] else []),
               frames_during_post := (\<lambda>room n ct.
                 [\<lparr>e_content = Some ct, e_conversationId = room, e_conversationIndex = n\<rparr>])\<rparr>"

definition demo_keyless :: engine where
  "demo_keyless = snd (getRoom demo_deps_echo demo_engine demo_room)"

section \<open>Evaluating the instance\<close>

lemma demo_aes_roundtrip:
  "aes_decrypt_utf8 demo_deps (aes_encrypt demo_deps p ''roomkey'' iv) ''roomkey'' iv = Some p"
  by (simp add: demo_deps_def)

lemma demo_digest:
  "sha1_base64 demo_deps ''{content:hi,created:1700}'' = Some ''}}}}}}}}''"
  "sha1_base64 demo_deps ''{score:null,created:1700}'' = Some ''}}}}}}}}''"
  "sha1_base64 demo_deps ''[1]'' = Some '']]]]]]]]''"
  "sha1_base64 demo_deps ''garbage'' = Some ''eeeeeeee''"
  by (simp_all add: demo_deps_def demo_hi_def demo_lo_def Let_def)

lemma demo_decrypt:
  "decryptEmsg demo_deps ''aXY='' ''roomkey|{content:hi,created:1700}}}}}}}'' ''roomkey''
     = Return (Some ''{content:hi,created:1700}'')"
proof -
  have "aes_decrypt_utf8 demo_deps ''roomkey|{content:hi,created:1700}}}}}}}'' ''roomkey''
          ''aXY='' = Some ''{content:hi,created:1700}}}}}}}''"
    by (simp add: demo_deps_def)
  then show ?thesis
    by (simp add: decryptEmsg_def demo_digest slice_0_minus_def substr_minus_def substr_0_def)
qed

lemma demo_decrypt_other_key:
  "decryptEmsg demo_deps iv (''roomkey|'' @ p) ''oldkey'' = Return None"
  by (simp add: decryptEmsg_def demo_deps_def)

lemma demo_valid: "validateMessage demo_message"
  by (simp add: validateMessage_def demo_message_def has_property_def when_present_def
      is_string_def is_number_def)

lemma demo_stamped: "stamped demo_deps (MsgString ''hi'') = demo_message"
  by (simp add: stamped_def message_props_def demo_deps_def demo_message_def)

lemma demo_loaded_eval:
  "demo_loaded =
     demo_engine\<lparr>convs_ref := [demo_room \<mapsto> 0],
       objects := (objects demo_engine)(0 :=
         \<lparr>keys = [''roomkey''], messages = [], messageCount = Num 1,
          lastConversationIndex = Num 0, conversationIndex = Undefined\<rparr>),
       next_ref := 1, fetching := [demo_room]\<rparr>"
  by (simp add: demo_loaded_def getRoom_def getRoom_resume_def getRoom_start_def
      handle_frames_def demo_deps_def demo_engine_def
      demo_keys_entry_def ingest_def processContent_def processKey_def ecDecrypt_def
      demo_account_def fresh_room_def Let_def)

section \<open>The symmetric envelope\<close>

text \<open>
  What \<^verbatim>\<open>decryptEmsg\<close> does, case by case: it returns a string \<open>p\<close> exactly when the
  decryption renders as a UTF-8 string of more than 6 characters, \<open>p\<close> is that string
  without its last 6 characters, the digest of \<open>p\<close> can be computed and the last 6
  characters are its first 6; it returns \<^verbatim>\<open>undefined\<close> exactly when the rendering fails,
  the string has at most 6 characters, or the digest can be computed and the tag
  differs; and it throws exactly when the string has more than 6 characters and the
  digest of the rest cannot be computed.
\<close>

lemma decryptEmsg_outcome:
  "(decryptEmsg E ivStr ct key = Return (Some p) \<longleftrightarrow>
     (\<exists>outText digest. aes_decrypt_utf8 E ct key ivStr = Some outText \<and> length outText > 6 \<and>
        p = slice_0_minus outText 6 \<and> sha1_base64 E p = Some digest \<and>
        substr_minus outText 6 = substr_0 digest 6)) \<and>
   (decryptEmsg E ivStr ct key = Return None \<longleftrightarrow>
     (aes_decrypt_utf8 E ct key ivStr = None \<or>
      (\<exists>outText. aes_decrypt_utf8 E ct key ivStr = Some outText \<and>
         (length outText \<le> 6 \<or>
          (\<exists>digest. sha1_base64 E (slice_0_minus outText 6) = Some digest \<and>
             substr_minus outText 6 \<noteq> substr_0 digest 6))))) \<and>
   (decryptEmsg E ivStr ct key = Throw e \<longleftrightarrow>
     (e = URIError \<and>
      (\<exists>outText. aes_decrypt_utf8 E ct key ivStr = Some outText \<and> length outText > 6 \<and>
         sha1_base64 E (slice_0_minus outText 6) = None)))"
  by (cases "aes_decrypt_utf8 E ct key ivStr")
     (auto simp: decryptEmsg_def Let_def split: option.splits)

text \<open>
  Claim C4 on the instance. The ciphertext decrypts under the room key to the
  well-formed string \<^verbatim>\<open>'a' + emoji + 'bcdef'\<close> (8 code units). The cut before the last 6
  falls inside the emoji, the digest of the rest throws, and \<^verbatim>\<open>decryptEmsg\<close> throws
  \<^verbatim>\<open>URIError\<close> where the claim has it return \<^verbatim>\<open>undefined\<close>; so does \<^verbatim>\<open>decryptMessage\<close> for a
  room that holds the key.
\<close>

theorem decryptEmsg_throws_on_split_pair:
  "aes_decrypt_utf8 demo_deps demo_emoji_ciphertext ''roomkey'' ''aXY=''
     = Some (''a'' @ [demo_hi, demo_lo] @ ''bcdef'') \<and>
   demo_well_formed (''a'' @ [demo_hi, demo_lo] @ ''bcdef'') \<and>
   length (''a'' @ [demo_hi, demo_lo] @ ''bcdef'') = 8 \<and>
   decryptEmsg demo_deps ''aXY='' demo_emoji_ciphertext ''roomkey'' = Throw URIError \<and>
   decryptMessage demo_deps
     \<lparr>emsg = demo_emoji_ciphertext, i = ''aXY='', address = ''0xB0B''\<rparr>
     (fresh_room\<lparr>keys := [''roomkey'']\<rparr>) = Throw URIError"
proof -
  have a: "aes_decrypt_utf8 demo_deps demo_emoji_ciphertext ''roomkey'' ''aXY=''
             = Some (''a'' @ [demo_hi, demo_lo] @ ''bcdef'')"
    by (simp add: demo_deps_def demo_emoji_ciphertext_def)
  have w: "demo_well_formed (''a'' @ [demo_hi, demo_lo] @ ''bcdef'')"
    by (simp add: demo_hi_def demo_lo_def)
  have s: "slice_0_minus (''a'' @ [demo_hi, demo_lo] @ ''bcdef'') 6 = [CHR ''a'', demo_hi]"
    by (simp add: slice_0_minus_def)
  have "\<not> demo_well_formed [CHR ''a'', demo_hi]"
    by (simp add: demo_hi_def demo_lo_def)
  then have d: "sha1_base64 demo_deps [CHR ''a'', demo_hi] = None"
    by (simp add: demo_deps_def)
  have t: "decryptEmsg demo_deps ''aXY='' demo_emoji_ciphertext ''roomkey'' = Throw URIError"
    unfolding decryptEmsg_def a option.case Let_def s d by simp
  then have "decryptMessage demo_deps
     \<lparr>emsg = demo_emoji_ciphertext, i = ''aXY='', address = ''0xB0B''\<rparr>
     (fresh_room\<lparr>keys := [''roomkey'']\<rparr>) = Throw URIError"
    by (simp add: decryptMessage_def)
  with a w t show ?thesis by simp
qed

section \<open>Key announcements\<close>

lemma recovered_Nil: "recovered E eng [] = {}"
  by (simp add: recovered_def)

lemma recovered_Cons:
  "recovered E eng (v # vs) = recovered E eng [v] \<union> recovered E eng vs"
  by (auto simp: recovered_def)

lemma processKey_frame:
  "messages (processKey E eng v c) = messages c"
  "messageCount (processKey E eng v c) = messageCount c"
  "lastConversationIndex (processKey E eng v c) = lastConversationIndex c"
  "conversationIndex (processKey E eng v c) = conversationIndex c"
  by (simp_all add: processKey_def Let_def split: outcome.splits option.splits)

lemma processKey_set:
  "set (keys (processKey E eng v c)) = set (keys c) \<union> recovered E eng [v]"
  by (auto simp: processKey_def recovered_def Let_def split: outcome.splits option.splits)

lemma processKey_prefix: "\<exists>ks. keys (processKey E eng v c) = keys c @ ks"
  by (auto simp: processKey_def Let_def split: outcome.splits option.splits)

lemma processKey_distinct: "distinct (keys c) \<Longrightarrow> distinct (keys (processKey E eng v c))"
  by (auto simp: processKey_def Let_def split: outcome.splits option.splits)

lemma processKey_known:
  "recovered E eng [v] \<subseteq> set (keys c) \<Longrightarrow> processKey E eng v c = c"
  by (auto simp: processKey_def recovered_def Let_def split: outcome.splits option.splits)

lemma processKeys_set:
  "set (keys (processKeys E eng vs c)) = set (keys c) \<union> recovered E eng vs"
proof (induction vs arbitrary: c)
  case Nil
  show ?case by (simp add: recovered_Nil)
next
  case (Cons v vs)
  have "set (keys (processKeys E eng (v # vs) c)) =
        set (keys (processKey E eng v c)) \<union> recovered E eng vs"
    using Cons.IH[of "processKey E eng v c"] by simp
  also have "\<dots> = set (keys c) \<union> (recovered E eng [v] \<union> recovered E eng vs)"
    by (simp add: processKey_set Un_assoc)
  finally show ?case using recovered_Cons[of E eng v vs] by simp
qed

lemma processKeys_prefix: "\<exists>ks. keys (processKeys E eng vs c) = keys c @ ks"
proof (induction vs arbitrary: c)
  case Nil
  show ?case by simp
next
  case (Cons v vs)
  obtain k1 where k1: "keys (processKey E eng v c) = keys c @ k1"
    using processKey_prefix by blast
  obtain k2 where "keys (processKeys E eng vs (processKey E eng v c)) =
                   keys (processKey E eng v c) @ k2"
    using Cons.IH by blast
  with k1 show ?case by simp
qed

lemma processKeys_distinct:
  "distinct (keys c) \<Longrightarrow> distinct (keys (processKeys E eng vs c))"
  by (induction vs arbitrary: c) (simp_all add: processKey_distinct)

lemma processKeys_frame:
  "messages (processKeys E eng vs c) = messages c"
  "messageCount (processKeys E eng vs c) = messageCount c"
  "lastConversationIndex (processKeys E eng vs c) = lastConversationIndex c"
  "conversationIndex (processKeys E eng vs c) = conversationIndex c"
  by (induction vs arbitrary: c) (simp_all add: processKey_frame)

lemma processKeys_known:
  "recovered E eng vs \<subseteq> set (keys c) \<Longrightarrow> processKeys E eng vs c = c"
proof (induction vs arbitrary: c)
  case Nil
  show ?case by simp
next
  case (Cons v vs)
  from Cons.prems have a: "recovered E eng [v] \<subseteq> set (keys c)"
    and b: "recovered E eng vs \<subseteq> set (keys c)"
    using recovered_Cons[of E eng v vs] by auto
  from a have "processKey E eng v c = c" by (rule processKey_known)
  with Cons.IH[OF b] show ?case by simp
qed

lemma processKeys_idem:
  "processKeys E eng vs (processKeys E eng vs c) = processKeys E eng vs c"
  by (rule processKeys_known) (simp add: processKeys_set)

text \<open>
  Claim C5. Every key in the room after \<^verbatim>\<open>processKeys\<close> was there before or was unwrapped
  from an entry whose address is the engine's wallet address; and an announcement whose
  entries are all addressed to others leaves the room as it was.
\<close>

theorem processKeys_ignores_other_addresses:
  "(\<forall>k\<in>set (keys (processKeys E eng vs c)).
      k \<in> set (keys c) \<or>
      (\<exists>v\<in>set vs. kaddress v = account_key eng \<and>
                   ecDecrypt E eng (ekey v) = Return (Some k))) \<and>
   ((\<forall>v\<in>set vs. kaddress v \<noteq> account_key eng) \<longrightarrow> processKeys E eng vs c = c)"
proof (intro conjI ballI impI)
  fix k assume "k \<in> set (keys (processKeys E eng vs c))"
  then have "k \<in> set (keys c) \<union> recovered E eng vs" by (simp add: processKeys_set)
  then show "k \<in> set (keys c) \<or>
      (\<exists>v\<in>set vs. kaddress v = account_key eng \<and>
                   ecDecrypt E eng (ekey v) = Return (Some k))"
    by (auto simp: recovered_def)
next
  assume "\<forall>v\<in>set vs. kaddress v \<noteq> account_key eng"
  then have "recovered E eng vs = {}" by (auto simp: recovered_def)
  then show "processKeys E eng vs c = c" by (simp add: processKeys_known)
qed

theorem processKeys_ignores_other_addresses_witness:
  "processKeys demo_deps demo_engine
     [\<lparr>ekey = ''k1:stolen'', maddress = ''0xMB'', kaddress = ''0xB0B''\<rparr>,
      \<lparr>ekey = ''k1:other'', maddress = ''0xMC'', kaddress = ''0xC0C''\<rparr>] fresh_room
   = fresh_room \<and>
   ecDecrypt demo_deps demo_engine ''k1:stolen'' = Return (Some ''stolen'')"
proof -
  let ?vs = "[\<lparr>ekey = ''k1:stolen'', maddress = ''0xMB'', kaddress = ''0xB0B''\<rparr>,
              \<lparr>ekey = ''k1:other'', maddress = ''0xMC'', kaddress = ''0xC0C''\<rparr>]"
  have "\<forall>v\<in>set ?vs. kaddress v \<noteq> account_key demo_engine"
    by (simp add: demo_engine_def)
  then have "processKeys demo_deps demo_engine ?vs fresh_room = fresh_room"
    using processKeys_ignores_other_addresses[of demo_deps demo_engine ?vs fresh_room]
    by blast
  moreover have "ecDecrypt demo_deps demo_engine ''k1:stolen'' = Return (Some ''stolen'')"
    by (simp add: ecDecrypt_def demo_deps_def demo_engine_def demo_account_def)
  ultimately show ?thesis by blast
qed

section \<open>Decoding a message envelope\<close>

lemma error_codes_differ: "COULD_NOT_DECRYPT \<noteq> INVALID_MESSAGE_OBJECT"
  by (simp add: COULD_NOT_DECRYPT_def INVALID_MESSAGE_OBJECT_def)

lemma decryptWithKeys_skip:
  "\<forall>k\<in>set pre. decryptEmsg E (i v) (emsg v) k = Return None \<Longrightarrow>
   decryptWithKeys E v (pre @ ks) = decryptWithKeys E v ks"
  by (induction pre) simp_all

text \<open>
  \<^verbatim>\<open>decryptMessage\<close> answers \<^verbatim>\<open>Invalid message object\<close> when the first room key that
  passes the tag check yields a text that does not parse or does not satisfy the schema.
\<close>

lemma decryptMessage_invalid:
  assumes "keys c = pre @ key # post"
    and "\<forall>k\<in>set pre. decryptEmsg E (i v) (emsg v) k = Return None"
    and "decryptEmsg E (i v) (emsg v) key = Return (Some buffer)"
    and "case json_parse E buffer of None \<Rightarrow> True | Some obj \<Rightarrow> \<not> validateMessage obj"
  shows "decryptMessage E v c = Return (error_result INVALID_MESSAGE_OBJECT)"
proof -
  have "decryptWithKeys E v (key # post) = Return (error_result INVALID_MESSAGE_OBJECT)"
    using assms(3,4) by (simp split: option.splits)
  then show ?thesis
    using decryptWithKeys_skip[OF assms(2), of "key # post"] assms(1)
    by (simp add: decryptMessage_def)
qed

text \<open>
  Claim C8. When \<^verbatim>\<open>decryptMessage\<close> answers \<^verbatim>\<open>Invalid message object\<close> for a \<^verbatim>\<open>msg\<close>
  envelope, \<^verbatim>\<open>processContent\<close> returns the room and the event log as they were, whatever
  the two callbacks are: neither is called. In particular the ingestion of such an entry
  by \<^verbatim>\<open>getRoom\<close> or \<^verbatim>\<open>onMessageUpdate\<close> emits no event and stores no message.
\<close>

theorem processContent_invalid_message_silent:
  assumes "decryptMessage E v (fst ctx) = Return (error_result INVALID_MESSAGE_OBJECT)"
  shows "processContent E eng (MsgContent v) onMessage onEncrypted ctx = Return ctx \<and>
         (\<exists>ctx'. ingest E eng roomId en (MsgContent v) ctx = Return ctx' \<and>
                 snd ctx' = snd ctx \<and> messages (fst ctx') = messages (fst ctx))"
proof -
  have p: "processContent E eng (MsgContent v) f g ctx = Return ctx" for f g
    using assms error_codes_differ
    by (simp add: processContent_def error_result_def)
  show ?thesis by (simp add: p ingest_def)
qed

theorem processContent_invalid_message_silent_witness:
  "decryptEmsg demo_deps ''aXY='' ''roomkey|[1]]]]]]]'' ''roomkey'' = Return (Some ''[1]'') \<and>
   processContent demo_deps demo_engine
     (MsgContent \<lparr>emsg = ''roomkey|[1]]]]]]]'', i = ''aXY='', address = ''0xB0B''\<rparr>)
     (on_msg demo_room (demo_live 1)) (on_emsg demo_room (demo_live 1))
     (fresh_room\<lparr>keys := [''roomkey'']\<rparr>, [])
   = Return (fresh_room\<lparr>keys := [''roomkey'']\<rparr>, [])"
proof -
  let ?v = "\<lparr>emsg = ''roomkey|[1]]]]]]]'', i = ''aXY='', address = ''0xB0B''\<rparr>"
  let ?c = "fresh_room\<lparr>keys := [''roomkey'']\<rparr>"
  have "aes_decrypt_utf8 demo_deps ''roomkey|[1]]]]]]]'' ''roomkey'' ''aXY='' = Some ''[1]]]]]]]''"
    by (simp add: demo_deps_def)
  then have d: "decryptEmsg demo_deps ''aXY='' ''roomkey|[1]]]]]]]'' ''roomkey''
                  = Return (Some ''[1]'')"
    by (simp add: decryptEmsg_def demo_digest slice_0_minus_def substr_minus_def substr_0_def)
  have "json_parse demo_deps ''[1]'' = Some (JArr [JNum 1])"
    by (simp add: demo_deps_def)
  moreover have "\<not> validateMessage (JArr [JNum 1])"
    by (simp add: validateMessage_def)
  ultimately have "decryptMessage demo_deps ?v ?c = Return (error_result INVALID_MESSAGE_OBJECT)"
    using d by (simp add: decryptMessage_def)
  then have "decryptMessage demo_deps ?v (fst (?c, []))
               = Return (error_result INVALID_MESSAGE_OBJECT)"
    by simp
  from processContent_invalid_message_silent[OF this] d show ?thesis by blast
qed

section \<open>Round trip\<close>

lemma tag_split:
  assumes "length t = 6"
  shows "slice_0_minus (s @ t) 6 = s" "substr_minus (s @ t) 6 = t"
  using assms by (simp_all add: slice_0_minus_def substr_minus_def)

lemma decryptEmsg_of_tagged:
  assumes aes: "aes_decrypt_utf8 E ct key iv = Some (s @ substr_0 digest 6)"
    and sha: "sha1_base64 E s = Some digest"
    and len: "6 \<le> length digest"
    and ne: "s \<noteq> []"
  shows "decryptEmsg E iv ct key = Return (Some s)"
proof -
  let ?t = "substr_0 digest 6"
  have l: "length ?t = 6" using len by (simp add: substr_0_def)
  have g: "length (s @ ?t) > 6" using l ne by (cases s) auto
  have n: "s @ ?t \<noteq> []" using ne by simp
  show ?thesis
    unfolding decryptEmsg_def aes option.case Let_def
    using g n tag_split[OF l, of s] sha by simp
qed

text \<open>
  What \<^verbatim>\<open>createEncrypted\<close> encrypts: the caller's properties with \<^verbatim>\<open>created\<close> set to the
  clock reading, every other property as given.
\<close>

lemma stamped_created:
  "stamped E m = JObj kvs \<Longrightarrow> map_of kvs ''created'' = Some (JNum (date_now E))"
  by (auto simp: stamped_def update_Some_unfold)

lemma stamped_other:
  "stamped E m = JObj kvs \<Longrightarrow> k \<noteq> ''created'' \<Longrightarrow> map_of kvs k = map_of (message_props m) k"
  by (auto simp: stamped_def update_conv')

text \<open>
  Claim C3 as the source has it. Let the address be valid, the message satisfy the
  schema once \<^verbatim>\<open>created\<close> is set, and \<open>K\<close> be the first key of the room \<open>c\<close>. Let the
  cipher decrypt under \<open>K\<close> what it encrypted under \<open>K\<close>, the digest of the printed
  message exist and have at least 6 base64 characters, and the JSON codec read the
  non-empty text it printed for this message back to the same object. Then
  \<^verbatim>\<open>createEncrypted\<close> returns an envelope, and \<^verbatim>\<open>decryptMessage\<close> on it returns
  \<^verbatim>\<open>{content: m'}\<close>, where \<open>m'\<close> has \<^verbatim>\<open>created\<close> set to the clock reading of the encryption
  and every other property as the caller gave it: with the room \<open>c\<close> itself, and with
  any room \<open>c2\<close> that holds \<open>K\<close> after keys that do not pass the tag check on this
  envelope.
\<close>

theorem createEncrypted_decryptMessage_roundtrip:
  assumes addr: "isAddress E addr" "toChecksumAddress E addr = Some remote"
    and valid: "validateMessage (stamped E m)"
    and primary: "keys c = K # rest"
    and room: "keys c2 = pre @ K # post"
    and others: "\<And>k env. k \<in> set pre \<Longrightarrow> createEncrypted E eng addr c m = Return (Some env)
                   \<Longrightarrow> decryptEmsg E (i env) (emsg env) k = Return None"
    and aes: "\<And>p. aes_decrypt_utf8 E (aes_encrypt E p K (random_iv E)) K (random_iv E) = Some p"
    and sha: "sha1_base64 E (json_stringify E (stamped E m)) = Some digest"
    and len: "6 \<le> length digest"
    and str: "json_stringify E (stamped E m) \<noteq> []"
    and json: "json_parse E (json_stringify E (stamped E m)) = Some (stamped E m)"
  shows "\<exists>env kvs. createEncrypted E eng addr c m = Return (Some env) \<and>
           decryptMessage E env c = Return (content_result (JObj kvs)) \<and>
           decryptMessage E env c2 = Return (content_result (JObj kvs)) \<and>
           map_of kvs ''created'' = Some (JNum (date_now E)) \<and>
           (\<forall>k. k \<noteq> ''created'' \<longrightarrow> map_of kvs k = map_of (message_props m) k)"
proof -
  let ?s = "json_stringify E (stamped E m)"
  let ?env = "\<lparr>emsg = aes_encrypt E (?s @ substr_0 digest 6) K (random_iv E),
               i = random_iv E, address = account_key eng\<rparr>"
  obtain kvs where kvs: "stamped E m = JObj kvs" by (simp add: stamped_def)
  have enc: "createEncrypted E eng addr c m = Return (Some ?env)"
    using addr valid primary sha by (simp add: createEncrypted_def Let_def)
  have d: "decryptEmsg E (i ?env) (emsg ?env) K = Return (Some ?s)"
    using decryptEmsg_of_tagged[OF _ sha len str] aes by simp
  have one: "decryptWithKeys E ?env (K # ks) = Return (content_result (stamped E m))" for ks
    using d json valid by simp
  have a: "decryptMessage E ?env c = Return (content_result (JObj kvs))"
    using one primary kvs by (simp add: decryptMessage_def)
  have b: "decryptMessage E ?env c2 = Return (content_result (JObj kvs))"
  proof -
    have "\<forall>k\<in>set pre. decryptEmsg E (i ?env) (emsg ?env) k = Return None"
      using others[OF _ enc] by blast
    from decryptWithKeys_skip[OF this] show ?thesis
      using one room kvs by (simp add: decryptMessage_def)
  qed
  have "map_of kvs ''created'' = Some (JNum (date_now E))"
    using kvs by (rule stamped_created)
  moreover have "\<forall>k. k \<noteq> ''created'' \<longrightarrow> map_of kvs k = map_of (message_props m) k"
    using stamped_other[OF kvs] by blast
  ultimately show ?thesis using enc a b by blast
qed

theorem createEncrypted_decryptMessage_roundtrip_witness:
  "\<exists>env. createEncrypted demo_deps demo_engine ''0xb0b''
            (fresh_room\<lparr>keys := [''roomkey'']\<rparr>) (MsgString ''hi'') = Return (Some env) \<and>
     (\<exists>kvs. decryptMessage demo_deps env (fresh_room\<lparr>keys := [''roomkey'']\<rparr>)
             = Return (content_result (JObj kvs)) \<and>
           decryptMessage demo_deps env (fresh_room\<lparr>keys := [''oldkey'', ''roomkey'']\<rparr>)
             = Return (content_result (JObj kvs)) \<and>
           map_of kvs ''created'' = Some (JNum 1700) \<and>
           map_of kvs ''content'' = Some (JStr ''hi''))"
proof -
  let ?E = demo_deps and ?m = "MsgString ''hi''"
  let ?c = "fresh_room\<lparr>keys := [''roomkey'']\<rparr>"
  let ?c2 = "fresh_room\<lparr>keys := [''oldkey'', ''roomkey'']\<rparr>"
  have st: "stamped ?E ?m = demo_message" by (rule demo_stamped)
  have js: "json_stringify ?E demo_message = ''{content:hi,created:1700}''"
    by (simp add: demo_deps_def)
  have h1: "isAddress ?E ''0xb0b''" "toChecksumAddress ?E ''0xb0b'' = Some ''0xB0B''"
    by (simp_all add: demo_deps_def)
  have h2: "validateMessage (stamped ?E ?m)" using demo_valid st by simp
  have h3: "keys ?c = ''roomkey'' # []" by simp
  have h4: "keys ?c2 = [''oldkey''] @ ''roomkey'' # []" by simp
  have h7: "sha1_base64 ?E (json_stringify ?E (stamped ?E ?m)) = Some ''}}}}}}}}''"
    unfolding st js by (rule demo_digest)
  have h5: "decryptEmsg ?E (i env) (emsg env) k = Return None"
    if "k \<in> set [''oldkey'']"
      and "createEncrypted ?E demo_engine ''0xb0b'' ?c ?m = Return (Some env)" for k env
  proof -
    have "emsg env = ''roomkey|'' @ json_stringify ?E (stamped ?E ?m) @ substr_0 ''}}}}}}}}'' 6"
      using that(2) h1 h2 h7
      by (simp add: createEncrypted_def Let_def) (auto simp: demo_deps_def)
    then show ?thesis using that(1) demo_decrypt_other_key by simp
  qed
  have h6: "aes_decrypt_utf8 ?E (aes_encrypt ?E p ''roomkey'' (random_iv ?E)) ''roomkey''
              (random_iv ?E) = Some p" for p
    by (rule demo_aes_roundtrip)
  have h7': "6 \<le> length ''}}}}}}}}''" by simp
  have h8: "json_stringify ?E (stamped ?E ?m) \<noteq> []" using st js by simp
  have h9: "json_parse ?E (json_stringify ?E (stamped ?E ?m)) = Some (stamped ?E ?m)"
    unfolding st js by (simp add: demo_deps_def)
  have dn: "date_now ?E = 1700" by (simp add: demo_deps_def)
  have mp: "map_of (message_props ?m) ''content'' = Some (JStr ''hi'')"
    by (simp add: message_props_def)
  from createEncrypted_decryptMessage_roundtrip
      [of ?E "''0xb0b''" "''0xB0B''" ?m ?c "''roomkey''" "[]" ?c2 "[''oldkey'']" "[]"
        demo_engine "''}}}}}}}}''", OF h1 h2 h3 h4 h5 h6 h7 h7' h8 h9]
  obtain env kvs where r: "createEncrypted ?E demo_engine ''0xb0b'' ?c ?m = Return (Some env)"
    "decryptMessage ?E env ?c = Return (content_result (JObj kvs))"
    "decryptMessage ?E env ?c2 = Return (content_result (JObj kvs))"
    "map_of kvs ''created'' = Some (JNum (date_now ?E))"
    "\<forall>k. k \<noteq> ''created'' \<longrightarrow> map_of kvs k = map_of (message_props ?m) k"
    by blast
  from r(5) mp have "map_of kvs ''content'' = Some (JStr ''hi'')" by simp
  with r(1-4) dn show ?thesis by auto
qed

text \<open>
  The claim as stated fails in two ways on the instance. First: a room that holds the
  key \<^verbatim>\<open>roomkey\<close> after the key \<^verbatim>\<open>weak\<close>, under which the envelope decrypts to a text
  that passes the tag check and is not JSON; \<^verbatim>\<open>decryptMessage\<close> stops at that key and
  answers \<^verbatim>\<open>Invalid message object\<close>. Second: a message that satisfies the schema and
  holds \<^verbatim>\<open>NaN\<close> in a property; JSON writes \<^verbatim>\<open>null\<close>, and \<^verbatim>\<open>decryptMessage\<close> returns an
  object whose property is \<^verbatim>\<open>null\<close>.
\<close>

theorem createEncrypted_decryptMessage_not_always:
  "(case createEncrypted demo_deps_weak demo_engine ''0xb0b''
           (fresh_room\<lparr>keys := [''roomkey'']\<rparr>) (MsgString ''hi'') of
      Return (Some env) \<Rightarrow>
        decryptMessage demo_deps_weak env (fresh_room\<lparr>keys := [''weak'', ''roomkey'']\<rparr>)
          = Return (error_result INVALID_MESSAGE_OBJECT)
    | _ \<Rightarrow> False) \<and>
   validateMessage (stamped demo_deps (MsgObject [(''score'', JNaN)])) \<and>
   stamped demo_deps (MsgObject [(''score'', JNaN)])
     = JObj [(''score'', JNaN), (''created'', JNum 1700)] \<and>
   (case createEncrypted demo_deps demo_engine ''0xb0b''
           (fresh_room\<lparr>keys := [''roomkey'']\<rparr>) (MsgObject [(''score'', JNaN)]) of
      Return (Some env) \<Rightarrow>
        decryptMessage demo_deps env (fresh_room\<lparr>keys := [''roomkey'']\<rparr>)
          = Return (content_result (JObj [(''score'', JNull), (''created'', JNum 1700)]))
    | _ \<Rightarrow> False)"
proof -
  let ?c = "fresh_room\<lparr>keys := [''roomkey'']\<rparr>"
  have ad: "isAddress demo_deps ''0xb0b''" "toChecksumAddress demo_deps ''0xb0b'' = Some ''0xB0B''"
    by (simp_all add: demo_deps_def)
  have js: "json_stringify demo_deps demo_message = ''{content:hi,created:1700}''"
    by (simp add: demo_deps_def)
  have w: "sha1_base64 demo_deps_weak = sha1_base64 demo_deps"
    "json_stringify demo_deps_weak = json_stringify demo_deps"
    "json_parse demo_deps_weak = json_parse demo_deps"
    "isAddress demo_deps_weak = isAddress demo_deps"
    "toChecksumAddress demo_deps_weak = toChecksumAddress demo_deps"
    "aes_encrypt demo_deps_weak = aes_encrypt demo_deps"
    "random_iv demo_deps_weak = random_iv demo_deps"
    "stamped demo_deps_weak = stamped demo_deps"
    by (simp_all add: demo_deps_weak_def stamped_def fun_eq_iff)
  have e1: "createEncrypted demo_deps_weak demo_engine ''0xb0b'' ?c (MsgString ''hi'')
              = Return (Some \<lparr>emsg = ''roomkey|{content:hi,created:1700}}}}}}}'', i = ''aXY='',
                              address = ''0xA11''\<rparr>)"
    using demo_valid
    by (simp add: createEncrypted_def w ad demo_stamped js demo_digest Let_def substr_0_def)
       (simp add: demo_deps_def demo_engine_def)
  have "aes_decrypt_utf8 demo_deps_weak ct ''weak'' iv = Some ''garbageeeeeee''" for ct iv
    by (simp add: demo_deps_weak_def)
  then have d1: "decryptEmsg demo_deps_weak iv ct ''weak'' = Return (Some ''garbage'')" for ct iv
    by (simp add: decryptEmsg_def w demo_digest slice_0_minus_def substr_minus_def substr_0_def)
  have "json_parse demo_deps ''garbage'' = None" by (simp add: demo_deps_def)
  then have r1: "decryptMessage demo_deps_weak env (fresh_room\<lparr>keys := [''weak'', ''roomkey'']\<rparr>)
          = Return (error_result INVALID_MESSAGE_OBJECT)" for env
    by (simp add: decryptMessage_def d1 w)
  have st: "stamped demo_deps (MsgObject [(''score'', JNaN)]) = demo_nan_message"
    by (simp add: stamped_def message_props_def demo_deps_def demo_nan_message_def)
  have v2: "validateMessage demo_nan_message"
    by (simp add: validateMessage_def demo_nan_message_def has_property_def when_present_def
        is_number_def)
  have js2: "json_stringify demo_deps demo_nan_message = ''{score:null,created:1700}''"
    by (simp add: demo_deps_def demo_nan_message_def demo_message_def)
  have e2: "createEncrypted demo_deps demo_engine ''0xb0b'' ?c (MsgObject [(''score'', JNaN)])
              = Return (Some \<lparr>emsg = ''roomkey|{score:null,created:1700}}}}}}}'', i = ''aXY='',
                              address = ''0xA11''\<rparr>)"
    using v2
    by (simp add: createEncrypted_def ad st js2 demo_digest Let_def substr_0_def)
       (simp add: demo_deps_def demo_engine_def)
  have "aes_decrypt_utf8 demo_deps ''roomkey|{score:null,created:1700}}}}}}}'' ''roomkey''
          ''aXY='' = Some ''{score:null,created:1700}}}}}}}''"
    by (simp add: demo_deps_def)
  then have d2: "decryptEmsg demo_deps ''aXY='' ''roomkey|{score:null,created:1700}}}}}}}''
                   ''roomkey'' = Return (Some ''{score:null,created:1700}'')"
    by (simp add: decryptEmsg_def demo_digest slice_0_minus_def substr_minus_def substr_0_def)
  have p2: "json_parse demo_deps ''{score:null,created:1700}'' = Some demo_null_message"
    by (simp add: demo_deps_def)
  have v3: "validateMessage demo_null_message"
    by (simp add: validateMessage_def demo_null_message_def has_property_def when_present_def
        is_number_def)
  have r2: "decryptMessage demo_deps
              \<lparr>emsg = ''roomkey|{score:null,created:1700}}}}}}}'', i = ''aXY='',
               address = ''0xA11''\<rparr> ?c = Return (content_result demo_null_message)"
    using d2 p2 v3 by (simp add: decryptMessage_def)
  show ?thesis
    using e1 r1 v2 e2 r2 unfolding st
    by (simp add: demo_nan_message_def demo_null_message_def)
qed

section \<open>Conversations with an unregistered peer\<close>

lemma getRegisteredKey_None:
  "fst (getRegisteredKey E eng key) = None \<Longrightarrow> snd (getRegisteredKey E eng key) = eng"
  by (auto simp: getRegisteredKey_def Let_def split: option.splits if_splits)

text \<open>The lookup yields no entry exactly when nothing is cached and the server does not
  answer 200 with a truthy body.\<close>

lemma getRegisteredKey_None_iff:
  "fst (getRegisteredKey E eng key) = None \<longleftrightarrow>
   registryCache eng key = None \<and>
   (fst (get_account E key) \<noteq> 200 \<or> snd (get_account E key) = None)"
  by (auto simp: getRegisteredKey_def Let_def split: option.splits if_splits)

text \<open>
  Claim C9. When the registry lookup for the remote address yields no entry,
  \<^verbatim>\<open>startConv\<close> returns \<^verbatim>\<open>undefined\<close> and leaves the engine as it was: nothing is posted
  and no event is emitted. \<^verbatim>\<open>sendConvMessage\<close> whose target resolves to that address then
  returns \<^verbatim>\<open>undefined\<close> with the engine unchanged as well.
\<close>

theorem startConv_unregistered_no_effect:
  assumes "fst (getRegisteredKey E eng remote) = None"
  shows "startConv E eng remote = (Return None, eng) \<and>
         (resolveRoom E eng roomIdOrAddress = Return (roomId, remote) \<longrightarrow>
            sendConvMessage E eng roomIdOrAddress m = (Return None, eng))"
proof -
  have s: "startConv E eng remote = (Return None, eng)"
    using assms getRegisteredKey_None[OF assms] by (simp add: startConv_def Let_def)
  then show ?thesis by (simp add: sendConvMessage_def Let_def)
qed

theorem startConv_unregistered_no_effect_witness:
  "startConv demo_deps demo_engine ''0xA11'' = (Return None, demo_engine) \<and>
   sendConvMessage demo_deps demo_engine ''0xa11'' (MsgString ''hi'')
     = (Return None, demo_engine) \<and>
   posted demo_engine = [] \<and> events demo_engine = []"
proof -
  have l: "fst (getRegisteredKey demo_deps demo_engine ''0xA11'') = None"
    by (simp add: getRegisteredKey_def demo_deps_def demo_engine_def)
  have r: "resolveRoom demo_deps demo_engine ''0xa11'' = Return (''0xA11-0xA11'', ''0xA11'')"
    by (simp add: resolveRoom_def isRoomId_def includes_char_def generateRoomId_def
        demo_deps_def demo_engine_def)
  have "posted demo_engine = [] \<and> events demo_engine = []"
    by (simp add: demo_engine_def)
  with startConv_unregistered_no_effect[OF l, of "''0xa11''" "''0xA11-0xA11''" "MsgString ''hi''"] r
  show ?thesis by blast
qed

section \<open>What the handlers leave alone\<close>

lemma getRoom_start_frame:
  "posted (getRoom_start eng r) = posted eng"
  "events (getRoom_start eng r) = events eng"
  "account_key (getRoom_start eng r) = account_key eng"
  "account (getRoom_start eng r) = account eng"
  "registryCache (getRoom_start eng r) = registryCache eng"
  "sending_message (getRoom_start eng r) = sending_message eng"
  by (simp_all add: getRoom_start_def)

text \<open>Handling a frame posts nothing and changes neither the account nor the registry.\<close>

lemma onMessageUpdate_frame:
  "posted (snd (onMessageUpdate E eng en)) = posted eng"
  "account_key (snd (onMessageUpdate E eng en)) = account_key eng"
  "account (snd (onMessageUpdate E eng en)) = account eng"
  "registryCache (snd (onMessageUpdate E eng en)) = registryCache eng"
  "sending_message (snd (onMessageUpdate E eng en)) = sending_message eng"
  by (simp_all add: onMessageUpdate_def getRoom_start_frame split: option.splits outcome.splits)

lemma handle_frames_frame:
  "posted (handle_frames E eng fs) = posted eng"
  "account_key (handle_frames E eng fs) = account_key eng"
  "account (handle_frames E eng fs) = account eng"
  "registryCache (handle_frames E eng fs) = registryCache eng"
  "sending_message (handle_frames E eng fs) = sending_message eng"
  unfolding handle_frames_def
  by (induction fs arbitrary: eng) (simp_all add: onMessageUpdate_frame)

lemma handle_frames_Nil: "handle_frames E eng [] = eng"
  by (simp add: handle_frames_def)

lemma handle_frames_Cons:
  "handle_frames E eng (en # fs) = handle_frames E (snd (onMessageUpdate E eng en)) fs"
  by (simp add: handle_frames_def)

section \<open>The out-of-band envelope\<close>

lemma getRegisteredKey_frame:
  "posted (snd (getRegisteredKey E eng key)) = posted eng"
  "events (snd (getRegisteredKey E eng key)) = events eng"
  "convs_ref (snd (getRegisteredKey E eng key)) = convs_ref eng"
  "objects (snd (getRegisteredKey E eng key)) = objects eng"
  "next_ref (snd (getRegisteredKey E eng key)) = next_ref eng"
  "account_key (snd (getRegisteredKey E eng key)) = account_key eng"
  "account (snd (getRegisteredKey E eng key)) = account eng"
  "fetching (snd (getRegisteredKey E eng key)) = fetching eng"
  "sending_message (snd (getRegisteredKey E eng key)) = sending_message eng"
  by (simp_all add: getRegisteredKey_def Let_def split: option.splits)

lemma room_or_new_frame:
  "posted (snd (room_or_new eng r)) = posted eng"
  "events (snd (room_or_new eng r)) = events eng"
  "convs_ref (snd (room_or_new eng r)) = convs_ref eng"
  "account_key (snd (room_or_new eng r)) = account_key eng"
  "account (snd (room_or_new eng r)) = account eng"
  "fetching (snd (room_or_new eng r)) = fetching eng"
  by (simp_all add: room_or_new_def split: option.splits)

lemma addRoomMsg_frame:
  "account_key (snd (addRoomMsg E eng r n ct)) = account_key eng"
  "account (snd (addRoomMsg E eng r n ct)) = account eng"
  by (simp_all add: addRoomMsg_def handle_frames_frame split: option.splits)

lemma addRoomMsg_posted:
  "posted (snd (addRoomMsg E eng r n ct)) = posted eng \<or>
   posted (snd (addRoomMsg E eng r n ct)) = posted eng @ [(r, n, ct)]"
  by (simp add: addRoomMsg_def handle_frames_frame split: option.splits)

text \<open>\<^verbatim>\<open>startConv\<close> posts nothing or one \<^verbatim>\<open>keys\<close> envelope.\<close>

lemma startConv_announce_posted:
  "posted (snd (startConv_announce E eng ent r remote ref)) = posted eng \<or>
   (\<exists>p. keys_post p \<and>
        posted (snd (startConv_announce E eng ent r remote ref)) = posted eng @ [p])"
proof -
  have k: "keys_post (r, n, keysContent e a ent x y z)" for n e a x y z
    by (simp add: keys_post_def keysContent_def)
  have p: "posted (snd (addRoomMsg E eng r n (keysContent eng a ent x y z))) = posted eng \<or>
           (\<exists>p. keys_post p \<and>
              posted (snd (addRoomMsg E eng r n (keysContent eng a ent x y z))) = posted eng @ [p])"
    for n a x y z
    using addRoomMsg_posted[of E eng r n "keysContent eng a ent x y z"] k by metis
  show ?thesis
    unfolding startConv_announce_def Let_def
    using p by (simp split: option.splits outcome.splits)
qed

lemma startConv_announce_frame:
  "account_key (snd (startConv_announce E eng ent r remote ref)) = account_key eng"
  "account (snd (startConv_announce E eng ent r remote ref)) = account eng"
  unfolding startConv_announce_def Let_def
  by (simp_all split: option.splits outcome.splits add: addRoomMsg_frame)

lemma startConv_posted:
  "posted (snd (startConv E eng remote)) = posted eng \<or>
   (\<exists>p. keys_post p \<and> posted (snd (startConv E eng remote)) = posted eng @ [p])"
proof -
  have "posted (snd (startConv_announce E e ent r remote ref)) = posted eng \<or>
        (\<exists>p. keys_post p \<and>
           posted (snd (startConv_announce E e ent r remote ref)) = posted eng @ [p])"
    if "posted e = posted eng" for e ent r ref
    using startConv_announce_posted[of E e ent r remote ref] that by simp
  then show ?thesis
    unfolding startConv_def Let_def
    by (simp split: option.splits outcome.splits
        add: getRegisteredKey_frame room_or_new_frame)
qed

lemma startConv_frame:
  "account_key (snd (startConv E eng remote)) = account_key eng"
  "account (snd (startConv E eng remote)) = account eng"
  unfolding startConv_def Let_def
  by (simp_all split: option.splits outcome.splits
      add: getRegisteredKey_frame room_or_new_frame startConv_announce_frame)

lemma createEncrypted_sender:
  "createEncrypted E eng addr c m = Return (Some enc) \<Longrightarrow> address enc = account_key eng"
  by (auto simp: createEncrypted_def Let_def split: if_splits option.splits list.splits)

lemma demo_startConv:
  "fst (startConv demo_deps demo_engine ''0xB0B'') =
     Return (Some (new_conv\<lparr>keys := [''roomkey''], messageCount := Num 1\<rparr>))"
  by (simp add: startConv_def startConv_announce_def room_or_new_def getRegisteredKey_def
      generateRoomId_def ecEncrypt_def addRoomMsg_def handle_frames_def keysContent_def
      new_conv_def demo_deps_def demo_engine_def demo_account_def demo_room_def Let_def)

lemma demo_createEncrypted:
  assumes "account_key eng1 = ''0xA11''"
  shows "createEncrypted demo_deps eng1 ''0xB0B''
           (new_conv\<lparr>keys := [''roomkey''], messageCount := Num 1\<rparr>) (MsgString ''hi'') =
         Return (Some \<lparr>emsg = ''roomkey|{content:hi,created:1700}}}}}}}'', i = ''aXY='',
                       address = ''0xA11''\<rparr>)"
proof -
  have c: "isAddress demo_deps ''0xB0B''" "toChecksumAddress demo_deps ''0xB0B'' = Some ''0xB0B''"
    "json_stringify demo_deps demo_message = ''{content:hi,created:1700}''"
    "aes_encrypt demo_deps p ''roomkey'' iv = ''roomkey|'' @ p"
    "random_iv demo_deps = ''aXY=''" for p iv
    by (simp_all add: demo_deps_def)
  show ?thesis
    using demo_valid assms
    by (simp add: createEncrypted_def demo_stamped c demo_digest new_conv_def Let_def
        substr_0_def)
qed

text \<open>
  Claim C7 as the source has it. For a valid address and a conversation that starts,
  \<^verbatim>\<open>createOutOfBandMessage\<close> returns the envelope of \<^verbatim>\<open>createEncrypted\<close> (sender address
  in \<^verbatim>\<open>address\<close>) extended with \<^verbatim>\<open>to\<close>, and \<^verbatim>\<open>to\<close> is the checksummed address of the
  recipient. The envelope is not posted: what the call posts is at most the \<^verbatim>\<open>keys\<close>
  envelope of \<^verbatim>\<open>startConv\<close>.
\<close>

theorem createOutOfBandMessage_to_is_recipient:
  assumes "isAddress E addr" and "toChecksumAddress E addr = Some recipient"
    and "toChecksumAddress E recipient = Some recipient'"
    and "startConv E eng recipient = (Return (Some c), eng1)"
    and "createEncrypted E eng1 recipient c m = Return (Some enc)"
  shows "createOutOfBandMessage E eng addr m =
           (Return (Some \<lparr>emsg = emsg enc, i = i enc, address = account_key eng,
                          to = recipient'\<rparr>), eng1) \<and>
         (\<forall>p\<in>set (posted eng1). p \<in> set (posted eng) \<or> keys_post p)"
proof -
  have a: "address enc = account_key eng"
    using createEncrypted_sender[OF assms(5)] startConv_frame(1)[of E eng recipient] assms(4)
    by simp
  have p: "\<forall>p\<in>set (posted eng1). p \<in> set (posted eng) \<or> keys_post p"
    using startConv_posted[of E eng recipient] assms(4) by auto
  show ?thesis using assms a p by (simp add: createOutOfBandMessage_def Let_def)
qed

theorem createOutOfBandMessage_to_is_recipient_witness:
  "fst (createOutOfBandMessage demo_deps demo_engine ''0xb0b'' (MsgString ''hi'')) =
     Return (Some \<lparr>emsg = ''roomkey|{content:hi,created:1700}}}}}}}'', i = ''aXY='',
                   address = ''0xA11'', to = ''0xB0B''\<rparr>)"
proof -
  let ?E = demo_deps
  let ?c = "new_conv\<lparr>keys := [''roomkey''], messageCount := Num 1\<rparr>"
  let ?eng1 = "snd (startConv ?E demo_engine ''0xB0B'')"
  have h1: "isAddress ?E ''0xb0b''" "toChecksumAddress ?E ''0xb0b'' = Some ''0xB0B''"
    "toChecksumAddress ?E ''0xB0B'' = Some ''0xB0B''"
    by (simp_all add: demo_deps_def)
  have ak: "account_key demo_engine = ''0xA11''" by (simp add: demo_engine_def)
  have h2: "startConv ?E demo_engine ''0xB0B'' = (Return (Some ?c), ?eng1)"
    using demo_startConv by (simp add: prod_eq_iff)
  have h3: "createEncrypted ?E ?eng1 ''0xB0B'' ?c (MsgString ''hi'') =
      Return (Some \<lparr>emsg = ''roomkey|{content:hi,created:1700}}}}}}}'', i = ''aXY='',
                    address = ''0xA11''\<rparr>)"
    by (rule demo_createEncrypted) (simp add: startConv_frame ak)
  show ?thesis
    using createOutOfBandMessage_to_is_recipient[OF h1 h2 h3] ak by simp
qed

text \<open>
  The claim's reading of \<^verbatim>\<open>to\<close> fails on the instance: the local wallet \<^verbatim>\<open>0xA11\<close> sends
  to \<^verbatim>\<open>0xb0b\<close>, and the envelope's \<^verbatim>\<open>to\<close> is \<^verbatim>\<open>0xB0B\<close>, not the sender's address.
\<close>

theorem createOutOfBandMessage_to_not_sender:
  "(case fst (createOutOfBandMessage demo_deps demo_engine ''0xb0b'' (MsgString ''hi'')) of
      Return (Some env) \<Rightarrow>
        to env = ''0xB0B'' \<and> to env \<noteq> account_key demo_engine \<and>
        Some (to env) \<noteq> toChecksumAddress demo_deps (account_key demo_engine)
    | _ \<Rightarrow> False)"
proof -
  let ?E = demo_deps
  let ?eng1 = "snd (startConv ?E demo_engine ''0xB0B'')"
  have c: "toChecksumAddress ?E ''0xb0b'' = Some ''0xB0B''" "isAddress ?E ''0xb0b''"
    "toChecksumAddress ?E ''0xB0B'' = Some ''0xB0B''"
    "toChecksumAddress ?E ''0xA11'' = Some ''0xA11''"
    by (simp_all add: demo_deps_def)
  have ak: "account_key demo_engine = ''0xA11''" by (simp add: demo_engine_def)
  have e: "createEncrypted ?E ?eng1 ''0xB0B''
             (new_conv\<lparr>keys := [''roomkey''], messageCount := Num 1\<rparr>) (MsgString ''hi'') =
           Return (Some \<lparr>emsg = ''roomkey|{content:hi,created:1700}}}}}}}'', i = ''aXY='',
                         address = ''0xA11''\<rparr>)"
    by (rule demo_createEncrypted) (simp add: startConv_frame ak)
  show ?thesis
    unfolding createOutOfBandMessage_def
    by (simp add: c demo_startConv e ak Let_def)
qed

section \<open>One ingestion step\<close>

lemma same_account_ecDecrypt:
  "account eng' = account eng \<Longrightarrow> ecDecrypt E eng' b = ecDecrypt E eng b"
  by (simp add: ecDecrypt_def)

lemma same_account_processKey:
  assumes "account_key eng' = account_key eng" and "account eng' = account eng"
  shows "processKey E eng' v c = processKey E eng v c"
  using assms same_account_ecDecrypt[OF assms(2), of E "ekey v"]
  by (simp add: processKey_def)

lemma same_account_processKeys:
  assumes "account_key eng' = account_key eng" and "account eng' = account eng"
  shows "processKeys E eng' vs c = processKeys E eng vs c"
proof (induction vs arbitrary: c)
  case Nil
  show ?case by simp
next
  case (Cons v vs)
  show ?case using Cons.IH same_account_processKey[OF assms, of E v c] by simp
qed

lemma same_account_ingest:
  assumes "account_key eng' = account_key eng" and "account eng' = account eng"
  shows "ingest E eng' r en ct ctx = ingest E eng r en ct ctx"
proof (cases ct)
  case (KeysContent a ks)
  then show ?thesis
    using same_account_processKeys[OF assms, of E ks "fst ctx"]
    by (simp add: ingest_def processContent_def)
qed (simp_all add: ingest_def processContent_def)




lemma ingest_keys:
  assumes "ingest E eng r en ct ctx = Return ctx'"
  shows "keys (fst ctx') =
     (case ct of KeysContent a ks \<Rightarrow> keys (processKeys E eng ks (fst ctx))
               | _ \<Rightarrow> keys (fst ctx))"
  using assms
  by (cases ct)
     (auto simp: ingest_def processContent_def on_msg_def on_emsg_def Let_def
        split: outcome.splits option.splits if_splits)

lemma ingest_counters:
  assumes "ingest E eng r en ct ctx = Return ctx'"
  shows "lastConversationIndex (fst ctx') = e_conversationIndex en"
    and "messageCount (fst ctx') = js_plus1 (e_conversationIndex en)"
  using assms by (auto simp: ingest_def split: outcome.splits)

lemma ingest_conversationIndex:
  assumes "ingest E eng r en ct ctx = Return ctx'"
  shows "conversationIndex (fst ctx') = conversationIndex (fst ctx)"
  using assms
  by (cases ct)
     (auto simp: ingest_def processContent_def on_msg_def on_emsg_def Let_def
        processKeys_frame split: outcome.splits option.splits if_splits)



lemma ingest_distinct:
  assumes "ingest E eng r en ct ctx = Return ctx'" and "distinct (keys (fst ctx))"
  shows "distinct (keys (fst ctx'))"
  using ingest_keys[OF assms(1)] assms(2)
  by (cases ct) (simp_all add: processKeys_distinct)






section \<open>Bulk load\<close>




lemma forEach_conversationIndex:
  "conversationIndex (fst (snd (getRoom_forEach E eng r es ctx))) = conversationIndex (fst ctx)"
proof (induction es arbitrary: ctx)
  case Nil
  show ?case by simp
next
  case (Cons en es)
  show ?case
  proof (cases "e_content en")
    case None
    then show ?thesis by simp
  next
    case (Some ct)
    show ?thesis
    proof (cases "ingest E eng r en ct ctx")
      case (Throw x)
      then show ?thesis using Some by simp
    next
      case (Return ctx')
      then show ?thesis
        using Some Cons.IH[of ctx'] ingest_conversationIndex[OF Return] by simp
    qed
  qed
qed

text \<open>
  After a bulk load of a non-empty log, the counters are those of its last entry: the
  count is the highest index plus one when the server lists the log in ascending order.
\<close>

lemma forEach_counters:
  assumes "es \<noteq> []" and "fst (getRoom_forEach E eng r es ctx) = Return ()"
  shows "lastConversationIndex (fst (snd (getRoom_forEach E eng r es ctx)))
           = e_conversationIndex (last es) \<and>
         messageCount (fst (snd (getRoom_forEach E eng r es ctx)))
           = js_plus1 (e_conversationIndex (last es))"
  using assms
proof (induction es arbitrary: ctx)
  case Nil
  then show ?case by simp
next
  case (Cons en es)
  from Cons.prems(2) obtain ct where ct: "e_content en = Some ct"
    by (cases "e_content en") auto
  from Cons.prems(2) ct obtain ctx' where i: "ingest E eng r en ct ctx = Return ctx'"
    by (cases "ingest E eng r en ct ctx") auto
  show ?case
  proof (cases es)
    case Nil
    then show ?thesis using ct i ingest_counters[OF i] by simp
  next
    case (Cons a list)
    then have "es \<noteq> []" by simp
    moreover have "fst (getRoom_forEach E eng r es ctx') = Return ()"
      using Cons.prems(2) ct i by simp
    ultimately show ?thesis using Cons.IH[of ctx'] ct i Cons by simp
  qed
qed

section \<open>Frames handled while a method waits\<close>

lemma js_neq_undefined_plus1: "js_neq x (js_plus1 Undefined)"
  by (cases x) simp_all

lemma onMessageUpdate_cases:
  assumes "unassigned_index e"
  obtains (nocontent) "e_content en = None" "snd (onMessageUpdate E e en) = e"
  | (noid) "e_conversationId en = []" "snd (onMessageUpdate E e en) = e"
  | (start) "e_conversationId en \<noteq> []" "convs_ref e (e_conversationId en) = None"
      "snd (onMessageUpdate E e en) = getRoom_start e (e_conversationId en)"
  | (thrown) ref ct x where "e_content en = Some ct" "e_conversationId en \<noteq> []"
      "convs_ref e (e_conversationId en) = Some ref"
      "ingest E e (e_conversationId en) en ct (objects e ref, events e) = Throw x"
      "snd (onMessageUpdate E e en) = e"
  | (ingested) ref ct ctx' where "e_content en = Some ct" "e_conversationId en \<noteq> []"
      "convs_ref e (e_conversationId en) = Some ref"
      "ingest E e (e_conversationId en) en ct (objects e ref, events e) = Return ctx'"
      "snd (onMessageUpdate E e en) = e\<lparr>objects := (objects e)(ref := fst ctx'),
                                         events := snd ctx'\<rparr>"
proof (cases "e_content en")
  case None
  then show ?thesis using nocontent by (simp add: onMessageUpdate_def)
next
  case (Some ct)
  note ct = Some
  show ?thesis
  proof (cases "e_conversationId en = []")
    case True
    then show ?thesis using noid ct by (simp add: onMessageUpdate_def)
  next
    case False
    note id = False
    show ?thesis
    proof (cases "convs_ref e (e_conversationId en)")
      case None
      then show ?thesis using start ct id by (simp add: onMessageUpdate_def)
    next
      case (Some ref)
      have n: "js_neq (e_conversationIndex en) (js_plus1 (conversationIndex (objects e ref)))"
        using assms js_neq_undefined_plus1 by (simp add: unassigned_index_def)
      show ?thesis
      proof (cases "ingest E e (e_conversationId en) en ct (objects e ref, events e)")
        case (Throw x)
        then show ?thesis using thrown[OF ct id Some] ct id Some n
          by (simp add: onMessageUpdate_def)
      next
        case (Return ctx')
        then show ?thesis using ingested[OF ct id Some] ct id Some n
          by (simp add: onMessageUpdate_def)
      qed
    qed
  qed
qed

lemma getRoom_start_heap_ok:
  assumes "heap_ok e"
  shows "heap_ok (getRoom_start e r)"
proof -
  have lt: "\<And>q ref. convs_ref e q = Some ref \<Longrightarrow> ref < next_ref e"
    using assms by (simp add: heap_ok_def)
  have inj: "\<And>p q ref. convs_ref e p = Some ref \<Longrightarrow> convs_ref e q = Some ref \<Longrightarrow> p = q"
    using assms unfolding heap_ok_def inj_on_def by (metis domI)
  have "inj_on ((convs_ref e)(r \<mapsto> next_ref e)) (dom ((convs_ref e)(r \<mapsto> next_ref e)))"
    unfolding inj_on_def
  proof (intro ballI impI)
    fix p q
    assume p: "p \<in> dom ((convs_ref e)(r \<mapsto> next_ref e))"
      and q: "q \<in> dom ((convs_ref e)(r \<mapsto> next_ref e))"
      and eq: "((convs_ref e)(r \<mapsto> next_ref e)) p = ((convs_ref e)(r \<mapsto> next_ref e)) q"
    show "p = q"
    proof (cases "p = r")
      case True
      then show ?thesis using eq q lt[of q "next_ref e"] by (cases "q = r") auto
    next
      case False
      note pr = False
      show ?thesis
      proof (cases "q = r")
        case True
        then show ?thesis using eq p pr lt[of p "next_ref e"] by auto
      next
        case False
        then show ?thesis using eq p q pr inj[of p _ q] by auto
      qed
    qed
  qed
  moreover have "\<forall>q ref. ((convs_ref e)(r \<mapsto> next_ref e)) q = Some ref \<longrightarrow>
                   ref < Suc (next_ref e)"
    using lt by (auto simp: less_Suc_eq)
  ultimately show ?thesis by (simp add: heap_ok_def getRoom_start_def)
qed

lemma getRoom_start_unassigned:
  "unassigned_index e \<Longrightarrow> unassigned_index (getRoom_start e r)"
  by (simp add: unassigned_index_def getRoom_start_def fresh_room_def)

lemma onMessageUpdate_unassigned:
  assumes "unassigned_index e"
  shows "unassigned_index (snd (onMessageUpdate E e en))"
  using assms
proof (cases rule: onMessageUpdate_cases[where en = en and E = E])
  case start
  then show ?thesis using getRoom_start_unassigned[OF assms] by simp
next
  case (ingested ref ct ctx')
  then show ?thesis
    using assms ingest_conversationIndex[OF ingested(4)]
    by (simp add: unassigned_index_def)
qed (simp_all add: assms)

lemma onMessageUpdate_heap_ok:
  assumes "unassigned_index e" and "heap_ok e"
  shows "heap_ok (snd (onMessageUpdate E e en))"
  using assms(1)
proof (cases rule: onMessageUpdate_cases[where en = en and E = E])
  case start
  then show ?thesis using getRoom_start_heap_ok[OF assms(2)] by simp
next
  case (ingested ref ct ctx')
  then show ?thesis using assms(2) by (simp add: heap_ok_def)
qed (simp_all add: assms)




section \<open>What a bulk load leaves in the room\<close>







section \<open>Live updates\<close>

text \<open>
  No method assigns \<^verbatim>\<open>convObj.conversationIndex\<close>: room objects are created by the two
  object literals, and the ingestion writes \<^verbatim>\<open>lastConversationIndex\<close> and
  \<^verbatim>\<open>messageCount\<close>.
\<close>

lemma handle_frames_unassigned:
  "unassigned_index e \<Longrightarrow> unassigned_index (handle_frames E e fs)"
  by (induction fs arbitrary: e)
     (simp_all add: handle_frames_Nil handle_frames_Cons onMessageUpdate_unassigned)

lemma getRoom_unassigned:
  assumes "unassigned_index e"
  shows "unassigned_index (snd (getRoom E e r))"
proof -
  let ?e1 = "handle_frames E (getRoom_start e r) (frames_during_fetch E r)"
  have u: "unassigned_index ?e1"
    using handle_frames_unassigned[OF getRoom_start_unassigned[OF assms]] .
  then have "conversationIndex (fst (snd (getRoom_forEach E ?e1 r (get_messages E r)
               (objects ?e1 (next_ref e), events ?e1)))) = Undefined"
    by (simp add: forEach_conversationIndex unassigned_index_def)
  then show ?thesis
    using u by (simp add: getRoom_def getRoom_resume_def Let_def unassigned_index_def)
qed

lemma addRoomMsg_unassigned:
  "unassigned_index e \<Longrightarrow> unassigned_index (snd (addRoomMsg E e r n ct))"
proof -
  assume u: "unassigned_index e"
  have "unassigned_index (e\<lparr>posted := p\<rparr>)" for p
    using u by (simp add: unassigned_index_def)
  then show ?thesis
    using u by (simp add: addRoomMsg_def handle_frames_unassigned split: option.splits)
qed

lemma startConv_announce_unassigned:
  assumes "unassigned_index e"
  shows "unassigned_index (snd (startConv_announce E e ent r remote ref))"
proof -
  have a: "unassigned_index (snd (addRoomMsg E e r n ct))" for n ct
    using addRoomMsg_unassigned[OF assms] .
  have b: "unassigned_index (e'\<lparr>objects := (objects e')(ref := (objects e' ref)\<lparr>keys := ks,
              messageCount := mc\<rparr>)\<rparr>)" if "unassigned_index e'" for e' ks mc
    using that by (simp add: unassigned_index_def)
  show ?thesis
    unfolding startConv_announce_def Let_def
    using assms a b by (simp split: option.splits outcome.splits)
qed

lemma startConv_unassigned:
  assumes "unassigned_index e"
  shows "unassigned_index (snd (startConv E e remote))"
proof -
  have g: "unassigned_index (snd (getRegisteredKey E e remote))"
    using assms by (simp add: unassigned_index_def getRegisteredKey_frame)
  have r: "unassigned_index (snd (room_or_new e' q))" if "unassigned_index e'" for e' q
    using that by (simp add: unassigned_index_def room_or_new_def new_conv_def
        split: option.splits)
  show ?thesis
    unfolding startConv_def Let_def
    using g r[OF g] startConv_announce_unassigned[OF r[OF g]]
    by (simp split: option.splits outcome.splits)
qed

text \<open>
  Hence, for a room the engine knows, the test of \<^verbatim>\<open>onMessageUpdate\<close> compares the
  index with \<^verbatim>\<open>undefined + 1\<close>, which differs from every value: the entry is ingested
  whatever its index, and the reload in the other branch is never started.
\<close>

lemma onMessageUpdate_known_room:
  assumes "e_content en = Some ct" and "e_conversationId en \<noteq> []"
    and "convs_ref eng (e_conversationId en) = Some ref"
    and "conversationIndex (objects eng ref) = Undefined"
  shows "onMessageUpdate E eng en =
     (case ingest E eng (e_conversationId en) en ct (objects eng ref, events eng) of
        Throw x \<Rightarrow> (Throw x, eng)
      | Return ctx' \<Rightarrow>
          (Return (), eng\<lparr>objects := (objects eng)(ref := fst ctx'), events := snd ctx'\<rparr>))"
  using assms js_neq_undefined_plus1 by (simp add: onMessageUpdate_def)

lemma onMessageUpdate_known_room_effect:
  assumes "e_content en = Some ct" and "e_conversationId en \<noteq> []"
    and "convs_ref eng (e_conversationId en) = Some ref"
    and "conversationIndex (objects eng ref) = Undefined"
    and "fst (onMessageUpdate E eng en) = Return ()"
  shows "fetching (snd (onMessageUpdate E eng en)) = fetching eng"
    and "map_option lastConversationIndex
           (convs (snd (onMessageUpdate E eng en)) (e_conversationId en))
           = Some (e_conversationIndex en)"
    and "map_option messageCount
           (convs (snd (onMessageUpdate E eng en)) (e_conversationId en))
           = Some (js_plus1 (e_conversationIndex en))"
proof -
  note k = onMessageUpdate_known_room[OF assms(1,2,3,4), of E]
  obtain ctx' where i:
    "ingest E eng (e_conversationId en) en ct (objects eng ref, events eng) = Return ctx'"
    using assms(5) unfolding k
    by (cases "ingest E eng (e_conversationId en) en ct (objects eng ref, events eng)") auto
  show "fetching (snd (onMessageUpdate E eng en)) = fetching eng"
    and "map_option lastConversationIndex
           (convs (snd (onMessageUpdate E eng en)) (e_conversationId en))
           = Some (e_conversationIndex en)"
    and "map_option messageCount
           (convs (snd (onMessageUpdate E eng en)) (e_conversationId en))
           = Some (js_plus1 (e_conversationIndex en))"
    unfolding k using i assms(3) ingest_counters[OF i] by (simp_all add: convs_def)
qed

lemma demo_loaded_known:
  "e_content (demo_live n) = Some (MsgContent demo_envelope)"
  "e_conversationId (demo_live n) = demo_room" "demo_room \<noteq> []"
  "e_conversationIndex (demo_live n) = Num n"
  by (simp_all add: demo_live_def demo_room_def)

lemma demo_ingest_live:
  assumes "keys c = [''roomkey'']"
  shows "ingest demo_deps eng demo_room (demo_live n) (MsgContent demo_envelope) (c, evs) =
     Return (c\<lparr>messages := messages c @
                  [toMessage (Plain demo_message) demo_room (demo_live n) ''0xB0B''],
               lastConversationIndex := Num n, messageCount := Num (n + 1)\<rparr>,
             evs @ [Emit ''msg'' (toMessage (Plain demo_message) demo_room (demo_live n)
                                    ''0xB0B'')])"
proof -
  have p: "json_parse demo_deps ''{content:hi,created:1700}'' = Some demo_message"
    by (simp add: demo_deps_def)
  have dm: "decryptMessage demo_deps demo_envelope c = Return (content_result demo_message)"
    using demo_decrypt demo_valid assms p
    by (simp add: decryptMessage_def demo_envelope_def)
  show ?thesis
    using dm error_codes_differ
    by (simp add: ingest_def processContent_def content_result_def on_msg_def Let_def
        demo_message_def demo_envelope_def demo_loaded_known)
qed

lemma demo_live_step:
  assumes "convs_ref e demo_room = Some 0" and "keys (objects e 0) = [''roomkey'']"
    and "conversationIndex (objects e 0) = Undefined"
  shows "snd (onMessageUpdate demo_deps e (demo_live n)) =
     e\<lparr>objects := (objects e)(0 := (objects e 0)
          \<lparr>messages := messages (objects e 0) @
              [toMessage (Plain demo_message) demo_room (demo_live n) ''0xB0B''],
           lastConversationIndex := Num n, messageCount := Num (n + 1)\<rparr>),
       events := events e @
          [Emit ''msg'' (toMessage (Plain demo_message) demo_room (demo_live n) ''0xB0B'')]\<rparr>"
proof -
  have c: "convs_ref e (e_conversationId (demo_live n)) = Some 0"
    using assms(1) by (simp add: demo_loaded_known)
  have ne: "e_conversationId (demo_live n) \<noteq> []" by (simp add: demo_loaded_known)
  show ?thesis
    unfolding onMessageUpdate_known_room[OF demo_loaded_known(1) ne c assms(3)]
    by (simp add: demo_loaded_known demo_ingest_live[OF assms(2)])
qed

lemma demo_loaded_object:
  "convs_ref demo_loaded demo_room = Some 0"
  "objects demo_loaded 0 =
     \<lparr>keys = [''roomkey''], messages = [], messageCount = Num 1,
      lastConversationIndex = Num 0, conversationIndex = Undefined\<rparr>"
  "events demo_loaded = []" "fetching demo_loaded = [demo_room]"
  by (simp_all add: demo_loaded_eval) (simp_all add: demo_engine_def)

text \<open>
  Claim C1 on the instance. The room was loaded up to index 0; a live entry with index 5
  (a gap) arrives. The engine ingests it: the counters advance to 5 and 6, a \<^verbatim>\<open>msg\<close>
  event is emitted, and no fetch is scheduled beyond the one of the initial load.
\<close>

theorem onMessageUpdate_gap_is_ingested:
  "map_option lastConversationIndex (convs demo_loaded demo_room) = Some (Num 0) \<and>
   map_option lastConversationIndex
     (convs (snd (onMessageUpdate demo_deps demo_loaded (demo_live 5))) demo_room)
     = Some (Num 5) \<and>
   map_option messageCount
     (convs (snd (onMessageUpdate demo_deps demo_loaded (demo_live 5))) demo_room)
     = Some (Num 6) \<and>
   fetching (snd (onMessageUpdate demo_deps demo_loaded (demo_live 5))) = fetching demo_loaded \<and>
   map_option (map index \<circ> messages)
     (convs (snd (onMessageUpdate demo_deps demo_loaded (demo_live 5))) demo_room)
     = Some [Num 5] \<and>
   length (events (snd (onMessageUpdate demo_deps demo_loaded (demo_live 5)))) = 1"
proof -
  have k: "keys (objects demo_loaded 0) = [''roomkey'']"
    and u: "conversationIndex (objects demo_loaded 0) = Undefined"
    by (simp_all add: demo_loaded_object)
  show ?thesis
    unfolding demo_live_step[OF demo_loaded_object(1) k u]
    by (simp add: convs_def demo_loaded_object toMessage_def demo_loaded_known)
qed

text \<open>
  Claim C2 on the instance. After the entry with index 5, a live entry with index 2 (a
  duplicate of an older one) is ingested as well: \<^verbatim>\<open>lastConversationIndex\<close> goes from 5
  back to 2 and \<^verbatim>\<open>messageCount\<close> from 6 back to 3, below the highest index ingested.
\<close>

theorem onMessageUpdate_moves_backwards:
  "map_option lastConversationIndex
     (convs (snd (onMessageUpdate demo_deps demo_loaded (demo_live 5))) demo_room)
     = Some (Num 5) \<and>
   map_option messageCount
     (convs (snd (onMessageUpdate demo_deps demo_loaded (demo_live 5))) demo_room)
     = Some (Num 6) \<and>
   map_option lastConversationIndex
     (convs (snd (onMessageUpdate demo_deps
               (snd (onMessageUpdate demo_deps demo_loaded (demo_live 5))) (demo_live 2)))
        demo_room)
     = Some (Num 2) \<and>
   map_option messageCount
     (convs (snd (onMessageUpdate demo_deps
               (snd (onMessageUpdate demo_deps demo_loaded (demo_live 5))) (demo_live 2)))
        demo_room)
     = Some (Num 3)"
proof -
  let ?e5 = "snd (onMessageUpdate demo_deps demo_loaded (demo_live 5))"
  have k: "keys (objects demo_loaded 0) = [''roomkey'']"
    and u: "conversationIndex (objects demo_loaded 0) = Undefined"
    by (simp_all add: demo_loaded_object)
  note s5 = demo_live_step[OF demo_loaded_object(1) k u, of 5]
  have c5: "convs_ref ?e5 demo_room = Some 0"
    and k5: "keys (objects ?e5 0) = [''roomkey'']"
    and u5: "conversationIndex (objects ?e5 0) = Undefined"
    unfolding s5 by (simp_all add: demo_loaded_object)
  note s2 = demo_live_step[OF c5 k5 u5, of 2]
  have a: "map_option lastConversationIndex (convs ?e5 demo_room) = Some (Num 5)"
    and b: "map_option messageCount (convs ?e5 demo_room) = Some (Num 6)"
    unfolding s5 by (simp_all add: convs_def demo_loaded_object)
  have c: "map_option lastConversationIndex
             (convs (snd (onMessageUpdate demo_deps ?e5 (demo_live 2))) demo_room) = Some (Num 2)"
    and d: "map_option messageCount
             (convs (snd (onMessageUpdate demo_deps ?e5 (demo_live 2))) demo_room) = Some (Num 3)"
    unfolding s2 using c5 by (simp_all add: convs_def)
  from a b c d show ?thesis by blast
qed

section \<open>Every room holds each key once\<close>

text \<open>
  \<^verbatim>\<open>processKeys\<close> keeps a key list free of duplicates and is idempotent (lemmas
  \<open>processKeys_distinct\<close> and \<open>processKeys_idem\<close>), and so is the ingestion built on it.
\<close>

lemma handle_frames_distinct:
  assumes "unassigned_index e" and "\<forall>ref. distinct (keys (objects e ref))"
  shows "\<forall>ref. distinct (keys (objects (handle_frames E e fs) ref))"
  using assms
proof (induction fs arbitrary: e)
  case Nil
  then show ?case by (simp add: handle_frames_Nil)
next
  case (Cons en fs)
  let ?e = "snd (onMessageUpdate E e en)"
  have u: "unassigned_index ?e" using onMessageUpdate_unassigned[OF Cons.prems(1)] .
  have d: "\<forall>ref. distinct (keys (objects ?e ref))"
    using Cons.prems(1)
  proof (cases rule: onMessageUpdate_cases[where en = en and E = E])
    case start
    then show ?thesis using Cons.prems(2) by (simp add: getRoom_start_def fresh_room_def)
  next
    case (ingested ref ct ctx')
    have "distinct (keys (fst ctx'))"
      using ingest_distinct[OF ingested(4)] Cons.prems(2) by simp
    then show ?thesis using ingested(5) Cons.prems(2) by simp
  qed (simp_all add: Cons.prems(2))
  show ?case using Cons.IH[OF u d] by (simp add: handle_frames_Cons)
qed

lemma demo_keyless_eval:
  "demo_keyless =
     demo_engine\<lparr>convs_ref := [demo_room \<mapsto> 0],
       objects := (objects demo_engine)(0 :=
         \<lparr>keys = [], messages = [], messageCount = Num 1,
          lastConversationIndex = Num 0, conversationIndex = Undefined\<rparr>),
       next_ref := 1, fetching := [demo_room]\<rparr>"
  by (simp add: demo_keyless_def getRoom_def getRoom_resume_def getRoom_start_def
      handle_frames_def demo_deps_echo_def demo_deps_def demo_engine_def
      demo_others_entry_def ingest_def processContent_def processKey_def
      fresh_room_def demo_room_def Let_def)

lemma demo_echo_frame:
  "frames_during_post demo_deps_echo r n ct =
     [\<lparr>e_content = Some ct, e_conversationId = r, e_conversationIndex = n\<rparr>]"
  by (simp add: demo_deps_echo_def)

text \<open>
  Claim C6 on the instance. The room is stored without a key (its log holds an
  announcement for the peer only). \<^verbatim>\<open>startConv\<close> posts its \<^verbatim>\<open>keys\<close> envelope, and the
  stream delivers that envelope back before the POST is answered: \<^verbatim>\<open>processKeys\<close> pushes
  the key on the stored room, and then \<^verbatim>\<open>startConv\<close> pushes the same key again, without
  the test that \<^verbatim>\<open>processKeys\<close> makes. The room ends with the key twice.
\<close>

theorem startConv_stores_key_twice:
  "map_option keys (convs demo_keyless demo_room) = Some [] \<and>
   map_option keys (convs (snd (startConv demo_deps_echo demo_keyless ''0xB0B'')) demo_room)
     = Some [''roomkey'', ''roomkey''] \<and>
   fst (startConv demo_deps_echo demo_keyless ''0xB0B'') =
     Return (Some \<lparr>keys = [''roomkey'', ''roomkey''], messages = [], messageCount = Num 3,
                   lastConversationIndex = Num 1, conversationIndex = Undefined\<rparr>)"
proof -
  have e: "startConv demo_deps_echo demo_keyless ''0xB0B'' =
     (Return (Some \<lparr>keys = [''roomkey'', ''roomkey''], messages = [], messageCount = Num 3,
                    lastConversationIndex = Num 1, conversationIndex = Undefined\<rparr>),
      demo_keyless\<lparr>registryCache := [''0xB0B'' \<mapsto> \<lparr>reg_address = ''0xMB'', pub_key = ''0xk2''\<rparr>],
        posted := [(demo_room, Num 1,
           KeysContent ''0xA11''
             [\<lparr>ekey = ''k1:roomkey'', maddress = ''0xMA'', kaddress = ''0xA11''\<rparr>,
              \<lparr>ekey = ''k2:roomkey'', maddress = ''0xMB'', kaddress = ''0xB0B''\<rparr>])],
        objects := (objects demo_keyless)(0 :=
          \<lparr>keys = [''roomkey'', ''roomkey''], messages = [], messageCount = Num 3,
           lastConversationIndex = Num 1, conversationIndex = Undefined\<rparr>)\<rparr>)"
    unfolding demo_keyless_eval
    by (simp add: startConv_def startConv_announce_def room_or_new_def getRegisteredKey_def
        generateRoomId_def ecEncrypt_def addRoomMsg_def handle_frames_def keysContent_def
        onMessageUpdate_def ingest_def processContent_def processKey_def ecDecrypt_def
        demo_echo_frame demo_deps_echo_def demo_deps_def demo_engine_def demo_account_def
        demo_room_def fresh_room_def Let_def)
  show ?thesis
    unfolding e by (simp add: demo_keyless_eval convs_def)
qed

section \<open>The invariants of the store\<close>

text \<open>
  Every method keeps the two properties of the store that the statements on bulk
  loads assume: room ids hold distinct, allocated objects, and no object has its
  \<^verbatim>\<open>conversationIndex\<close> assigned. They hold of an engine that has no room yet.
\<close>

lemma heap_ok_initial:
  "convs_ref e = Map.empty \<Longrightarrow> heap_ok e"
  by (simp add: heap_ok_def)

lemma heap_ok_cong:
  "convs_ref e' = convs_ref e \<Longrightarrow> next_ref e \<le> next_ref e' \<Longrightarrow> heap_ok e \<Longrightarrow> heap_ok e'"
  unfolding heap_ok_def by (metis less_le_trans)

lemma handle_frames_heap_ok:
  assumes "unassigned_index e" and "heap_ok e"
  shows "heap_ok (handle_frames E e fs)"
  using assms
  by (induction fs arbitrary: e)
     (simp_all add: handle_frames_Nil handle_frames_Cons onMessageUpdate_unassigned
        onMessageUpdate_heap_ok)

lemma getRoom_heap_ok:
  assumes "unassigned_index e" and "heap_ok e"
  shows "heap_ok (snd (getRoom E e r))"
proof -
  let ?e1 = "handle_frames E (getRoom_start e r) (frames_during_fetch E r)"
  have "heap_ok ?e1"
    using handle_frames_heap_ok[OF getRoom_start_unassigned[OF assms(1)]
        getRoom_start_heap_ok[OF assms(2)]] .
  then show ?thesis
    by (simp add: getRoom_def getRoom_resume_def Let_def heap_ok_def)
qed

lemma addRoomMsg_heap_ok:
  assumes "unassigned_index e" and "heap_ok e"
  shows "heap_ok (snd (addRoomMsg E e r n ct))"
proof -
  have u: "unassigned_index (e\<lparr>posted := p\<rparr>)" for p
    using assms(1) by (simp add: unassigned_index_def)
  have h: "heap_ok (e\<lparr>posted := p\<rparr>)" for p
    using assms(2) by (simp add: heap_ok_def)
  show ?thesis
    using assms(2) handle_frames_heap_ok[OF u h]
    by (simp add: addRoomMsg_def split: option.splits)
qed

lemma startConv_announce_heap_ok:
  assumes "unassigned_index e" and "heap_ok e"
  shows "heap_ok (snd (startConv_announce E e ent r remote ref))"
proof -
  have a: "heap_ok (snd (addRoomMsg E e r n ct))" for n ct
    using addRoomMsg_heap_ok[OF assms] .
  have b: "heap_ok (e'\<lparr>objects := f\<rparr>)" if "heap_ok e'" for e' f
    using that by (simp add: heap_ok_def)
  show ?thesis
    unfolding startConv_announce_def Let_def
    using assms(2) a b by (simp split: option.splits outcome.splits)
qed

lemma startConv_heap_ok:
  assumes "unassigned_index e" and "heap_ok e"
  shows "heap_ok (snd (startConv E e remote))"
proof -
  let ?g = "snd (getRegisteredKey E e remote)"
  have gu: "unassigned_index ?g"
    using assms(1) by (simp add: unassigned_index_def getRegisteredKey_frame)
  have gh: "heap_ok ?g"
    using assms(2) by (simp add: heap_ok_def getRegisteredKey_frame)
  have ru: "unassigned_index (snd (room_or_new ?g q))" for q
    using gu by (simp add: unassigned_index_def room_or_new_def new_conv_def
        split: option.splits)
  have rh: "heap_ok (snd (room_or_new ?g q))" for q
    using gh by (auto simp: heap_ok_def room_or_new_def less_Suc_eq split: option.splits)
  show ?thesis
    unfolding startConv_def Let_def
    using gh rh startConv_announce_heap_ok[OF ru rh]
    by (simp split: option.splits outcome.splits)
qed

lemma sendConvMessage_invariants:
  assumes "unassigned_index e" and "heap_ok e"
  shows "unassigned_index (snd (sendConvMessage E e r m)) \<and>
         heap_ok (snd (sendConvMessage E e r m))"
proof -
  let ?s = "\<lambda>remote. snd (startConv E e remote)"
  have su: "unassigned_index (?s remote)" for remote
    using startConv_unassigned[OF assms(1)] .
  have sh: "heap_ok (?s remote)" for remote
    using startConv_heap_ok[OF assms] .
  have fu: "unassigned_index (e'\<lparr>sending_message := b\<rparr>)" if "unassigned_index e'" for e' b
    using that by (simp add: unassigned_index_def)
  have fh: "heap_ok (e'\<lparr>sending_message := b\<rparr>)" if "heap_ok e'" for e' b
    using that by (simp add: heap_ok_def)
  have au: "unassigned_index (snd (addRoomMsg E ((?s remote)\<lparr>sending_message := True\<rparr>) q n ct))"
    for remote q n ct
    using addRoomMsg_unassigned[OF fu[OF su]] .
  have ah: "heap_ok (snd (addRoomMsg E ((?s remote)\<lparr>sending_message := True\<rparr>) q n ct))"
    for remote q n ct
    using addRoomMsg_heap_ok[OF fu[OF su] fh[OF sh]] .
  show ?thesis
    unfolding sendConvMessage_def Let_def
    using assms su sh au ah fu[OF au] fh[OF ah]
    by (simp split: option.splits outcome.splits)
qed

lemma createOutOfBandMessage_invariants:
  assumes "unassigned_index e" and "heap_ok e"
  shows "unassigned_index (snd (createOutOfBandMessage E e a m)) \<and>
         heap_ok (snd (createOutOfBandMessage E e a m))"
  unfolding createOutOfBandMessage_def Let_def
  using assms startConv_unassigned[OF assms(1)] startConv_heap_ok[OF assms]
  by (simp split: option.splits outcome.splits)

end
